theory Spec2Isabelle
  imports Main "HOL-Library.Word" "HOL-Library.Monad_Syntax"
begin

unbundle bit_operations_syntax

section \<open>Machine types and memory reads\<close>

text \<open>
  The library runs on the RFduino (ARM Cortex-M0, 32-bit \<^verbatim>\<open>int\<close>, \<^verbatim>\<open>char\<close>
  unsigned as the ARM EABI has it). A \<^verbatim>\<open>char\<close> is an \<open>8 word\<close>, an
  \<^verbatim>\<open>unsigned int\<close> a \<open>32 word\<close>. Counters and positions declared \<^verbatim>\<open>int\<close> are
  \<open>int\<close>: none of them comes near 2^31 before an array index leaves its array.

  A \<^verbatim>\<open>char *\<close> is the list of cells from the pointer to the end of the array it
  points into; \<^verbatim>\<open>NULL\<close> is \<open>None\<close>. A read or a write outside that list, or
  through \<^verbatim>\<open>NULL\<close>, is undefined behaviour in C++: every function that can run into
  one returns an \<open>option\<close>, and \<open>None\<close> is that outcome.
\<close>

type_synonym byte = "8 word"

definition rd :: "'a list \<Rightarrow> int \<Rightarrow> 'a option" where
  "rd xs i = (if 0 \<le> i \<and> i < int (length xs) then Some (xs ! nat i) else None)"

definition wr :: "'a list \<Rightarrow> int \<Rightarrow> 'a \<Rightarrow> 'a list option" where
  "wr xs i v = (if 0 \<le> i \<and> i < int (length xs) then Some (xs[nat i := v]) else None)"

section \<open>The byteId and check sum codec\<close>

text \<open>\<^verbatim>\<open>byteIdGetCheckSum\<close>: \<^verbatim>\<open>byteId & 0x07\<close>.\<close>

definition byteIdGetCheckSum :: "byte \<Rightarrow> byte" where
  "byteIdGetCheckSum byteId = byteId AND 0x07"

text \<open>\<^verbatim>\<open>byteIdGetIsStream\<close>: \<^verbatim>\<open>byteId > 0x7F\<close>, on an unsigned char.\<close>

definition byteIdGetIsStream :: "byte \<Rightarrow> bool" where
  "byteIdGetIsStream byteId = (0x7F < byteId)"

text \<open>\<^verbatim>\<open>byteIdGetPacketNumber\<close>: \<^verbatim>\<open>(int)((byteId & 0x78) >> 3)\<close>.\<close>

definition byteIdGetPacketNumber :: "byte \<Rightarrow> int" where
  "byteIdGetPacketNumber byteId = uint (drop_bit 3 (byteId AND 0x78))"

text \<open>\<^verbatim>\<open>byteIdGetStreamPacketType\<close>: \<^verbatim>\<open>(byte)((byteId & 0x78) >> 3)\<close>.\<close>

definition byteIdGetStreamPacketType :: "byte \<Rightarrow> byte" where
  "byteIdGetStreamPacketType byteId = drop_bit 3 (byteId AND 0x78)"

text \<open>
  \<^verbatim>\<open>checkSumMake\<close>. The \<^verbatim>\<open>do { sum = sum + data[count]; count++; } while (--length)\<close>
  loop runs its body before it tests \<^verbatim>\<open>length\<close>: called with a length of 0 or less it
  keeps reading until \<^verbatim>\<open>count\<close> leaves the array.
\<close>

function checkSumMake_loop :: "byte list \<Rightarrow> int \<Rightarrow> int \<Rightarrow> 32 word \<Rightarrow> 32 word option" where
  "checkSumMake_loop dat count len sm =
     (case rd dat count of
        None \<Rightarrow> None
      | Some c \<Rightarrow>
          (if len - 1 \<noteq> 0 then checkSumMake_loop dat (count + 1) (len - 1) (sm + ucast c)
           else Some (sm + ucast c)))"
  by pat_completeness auto
termination
  by (relation "measure (\<lambda>(dat, count, len, sm). nat (int (length dat) - count))")
     (auto simp: rd_def split: if_splits)

declare checkSumMake_loop.simps [simp del]

definition checkSumMake :: "byte list option \<Rightarrow> int \<Rightarrow> byte option" where
  "checkSumMake dat len =
     (case dat of
        None \<Rightarrow> Some 0x00
      | Some d \<Rightarrow> do { sm \<leftarrow> checkSumMake_loop d 0 len 0; Some (ucast ((- sm) AND 0x07)) })"

text \<open>
  \<^verbatim>\<open>byteIdMake\<close>. The packet number is an \<^verbatim>\<open>int\<close>; \<^verbatim>\<open>(packetNumber & 0x0F) << 3\<close> is
  computed on it and the result narrowed to a char.
\<close>

definition byteIdMake :: "bool \<Rightarrow> int \<Rightarrow> byte list option \<Rightarrow> int \<Rightarrow> byte option" where
  "byteIdMake isStreamPacket packetNumber dat len =
     (let output = 0x00;
          output = (if isStreamPacket then output OR 0x80 else output);
          output = output OR word_of_int (push_bit 3 (packetNumber AND 0x0F))
      in do { cs \<leftarrow> checkSumMake dat len; Some (output OR cs) })"

text \<open>
  \<^verbatim>\<open>checkSumsAreEqual\<close> reads \<^verbatim>\<open>data[0]\<close> and sums \<^verbatim>\<open>len - 1\<close> bytes from
  \<^verbatim>\<open>data + 1\<close>.
\<close>

definition checkSumsAreEqual :: "byte list \<Rightarrow> int \<Rightarrow> bool option" where
  "checkSumsAreEqual dat len =
     do { b0 \<leftarrow> rd dat 0;
          calculatedCheckSum \<leftarrow> checkSumMake (Some (drop 1 dat)) (len - 1);
          Some (byteIdGetCheckSum b0 = calculatedCheckSum) }"

text \<open>\<^verbatim>\<open>outputGetStopByteFromByteId\<close>: \<^verbatim>\<open>byteIdGetStreamPacketType(byteId) | 0xC0\<close>.\<close>

definition outputGetStopByteFromByteId :: "byte \<Rightarrow> byte" where
  "outputGetStopByteFromByteId byteId = byteIdGetStreamPacketType byteId OR 0xC0"

section \<open>Constants of the header\<close>

text \<open>
  \<^verbatim>\<open>OpenBCI_Radios.h\<close> is not among the sources. Two of its constants are fixed by the
  comments of the code that uses them (\<^verbatim>\<open>OPENBCI_MAX_DATA_BYTES_IN_PACKET); // 31 bytes\<close>,
  \<^verbatim>\<open>OPENBCI_MAX_PACKET_SIZE_BYTES); // 32 bytes\<close>); every other one is a field of the
  record \<open>Config\<close>, which each function that uses one takes as its first argument.
\<close>

definition OPENBCI_MAX_PACKET_SIZE_BYTES :: int where
  "OPENBCI_MAX_PACKET_SIZE_BYTES = 32"

definition OPENBCI_MAX_DATA_BYTES_IN_PACKET :: int where
  "OPENBCI_MAX_DATA_BYTES_IN_PACKET = 31"

record Config =
  OPENBCI_MAX_NUMBER_OF_BUFFERS :: int
  OPENBCI_BUFFER_LENGTH :: int
  OPENBCI_MAX_SERIAL_TIMEOUT_MS :: "32 word"
  OPENBCI_SERIAL_TIMEOUT_uS :: "32 word"
  RFDUINOGZLL_CHANNEL_LIMIT_UPPER :: "32 word"
  ORPM_INVALID_CODE_RECEIVED :: byte
  ORPM_PACKET_BAD_CHECK_SUM :: byte
  ORPM_PACKET_MISSED :: byte
  ORPM_DEVICE_SERIAL_OVERFLOW :: byte
  ORPM_CHANGE_CHANNEL_HOST_REQUEST :: byte
  ORPM_CHANGE_CHANNEL_DEVICE_READY :: byte
  OPENBCI_HOST_TIME_SYNC :: byte
  OPENBCI_HOST_TIME_SYNC_ACK :: byte
  OPENBCI_HOST_CHANNEL_QUERY :: byte
  OPENBCI_HOST_CHANNEL_CHANGE :: byte
  OPENBCI_HOST_CHANNEL_CHANGE_SUCCESS :: byte
  OPENBCI_HOST_CHANNEL_CHANGE_INVALID :: byte
  OPENBCI_STREAM_BYTE_START :: byte
  OPENBCI_STREAM_PACKET_HEAD :: byte

section \<open>The state of the radio object\<close>

text \<open>
  The structs \<^verbatim>\<open>PacketBuffer\<close>, \<^verbatim>\<open>Buffer\<close> and \<^verbatim>\<open>StreamPacketBuffer\<close> are declared in
  the header; their fields are the ones the code reads and writes. An array is a list as
  long as the array is declared.
\<close>

record PacketBuffer =
  data :: "byte list"
  positionRead :: int
  positionWrite :: int

record Buffer =
  numberOfPacketsToSend :: int
  numberOfPacketsSent :: int
  packetBuffer :: "PacketBuffer list"

text \<open>The field \<^verbatim>\<open>data\<close> of \<^verbatim>\<open>StreamPacketBuffer\<close> is \<open>streamData\<close> here.\<close>

record StreamPacketBuffer =
  gotHead :: bool
  readyForLaunch :: bool
  typeByte :: byte
  streamData :: "byte list"
  bytesIn :: int

text \<open>
  What the radio and the serial port are asked to do is appended to the log \<open>out\<close>:
  \<^verbatim>\<open>RFduinoGZLL.sendToHost\<close>, \<^verbatim>\<open>RFduinoGZLL.sendToDevice\<close> (with the device it names),
  \<^verbatim>\<open>Serial.write\<close>, and \<^verbatim>\<open>Serial.print\<close> / \<^verbatim>\<open>Serial.println\<close> of a text or of a
  number.
\<close>

datatype event =
    SendToHost "byte list"
  | SendToDevice nat "byte list"
  | SerialWrite byte
  | SerialPrint string
  | SerialPrintln string
  | SerialPrintNum int
  | SerialPrintlnNum int

text \<open>
  The members of \<^verbatim>\<open>OpenBCI_Radios_Class\<close> the modelled functions use. The two packet
  cursors are pointers into the \<^verbatim>\<open>packetBuffer\<close> array of their buffer: an index, or
  \<open>None\<close> for \<^verbatim>\<open>NULL\<close>. \<open>gzllChannel\<close> is \<^verbatim>\<open>RFduinoGZLL.channel\<close>, \<open>flashChannel\<close> the
  word at \<^verbatim>\<open>ADDRESS_OF_PAGE(RFDUINOGZLL_FLASH_MEM_ADDR)\<close>. The environment is part of the
  state: \<open>millis\<close> and \<open>micros\<close> are what the two clocks read during the call, and
  \<open>flashPageEraseResult\<close>, \<open>flashWriteResult\<close> what the two flash routines return.
\<close>

record Radio =
  isHost :: bool
  isDevice :: bool
  verbosePrintouts :: bool
  radioChannel :: "32 word"
  previousRadioChannel :: "32 word"
  gzllChannel :: "32 word"
  flashChannel :: "32 word"
  isWaitingForNewChannelNumber :: bool
  isWaitingForNewChannelNumberConfirmation :: bool
  bufferSerial :: Buffer
  currentPacketBufferSerial :: "int option"
  bufferStreamPackets :: Buffer
  currentPacketBufferStreamPacket :: "int option"
  streamPacketBuffer :: StreamPacketBuffer
  bufferRadio :: "byte list"
  bufferPositionWriteRadio :: int
  isTheDevicesRadioBufferFilledWithAllThePacketsFromTheHost :: bool
  isTheHostsRadioBufferFilledWithAllThePacketsFromTheDevice :: bool
  previousPacketNumber :: int
  lastTimeHostHeardFromDevice :: "32 word"
  lastTimeNewSerialDataWasAvailable :: "32 word"
  timeOfLastPoll :: "32 word"
  timeWeGot0xFXFromPic :: "32 word"
  millis :: "32 word"
  micros :: "32 word"
  flashPageEraseResult :: int
  flashWriteResult :: int
  out :: "event list"

definition emit :: "event \<Rightarrow> Radio \<Rightarrow> Radio" where
  "emit e s = s\<lparr>out := out s @ [e]\<rparr>"

text \<open>A \<^verbatim>\<open>Serial.println\<close> of a text that is guarded by \<^verbatim>\<open>verbosePrintouts\<close>.\<close>

definition verbosePrintln :: "string \<Rightarrow> Radio \<Rightarrow> Radio" where
  "verbosePrintln txt s = (if verbosePrintouts s then emit (SerialPrintln txt) s else s)"

text \<open>
  \<^verbatim>\<open>RFduinoGZLL.sendToHost(data, len)\<close> and \<^verbatim>\<open>RFduinoGZLL.sendToDevice(device, data, len)\<close>
  read \<^verbatim>\<open>len\<close> cells from the pointer.
\<close>

definition sendToHost :: "byte list \<Rightarrow> int \<Rightarrow> Radio \<Rightarrow> Radio option" where
  "sendToHost mem len s =
     (if len \<le> int (length mem) then Some (emit (SendToHost (take (nat len) mem)) s) else None)"

definition sendToDevice :: "nat \<Rightarrow> byte list \<Rightarrow> int \<Rightarrow> Radio \<Rightarrow> Radio option" where
  "sendToDevice device mem len s =
     (if len \<le> int (length mem) then Some (emit (SendToDevice device (take (nat len) mem)) s)
      else None)"

definition pollRefresh :: "Radio \<Rightarrow> Radio" where
  "pollRefresh s = s\<lparr>timeOfLastPoll := millis s\<rparr>"

definition pollHost :: "Radio \<Rightarrow> Radio option" where
  "pollHost s = do { s \<leftarrow> sendToHost [] 0 s; Some (pollRefresh s) }"

definition getChannelNumber :: "Radio \<Rightarrow> 32 word" where
  "getChannelNumber s = flashChannel s"

definition theLastTimeNewSerialDataWasAvailableWasLongEnough :: "Config \<Rightarrow> Radio \<Rightarrow> bool" where
  "theLastTimeNewSerialDataWasAvailableWasLongEnough cfg s =
     (lastTimeNewSerialDataWasAvailable s + OPENBCI_MAX_SERIAL_TIMEOUT_MS cfg < millis s)"

section \<open>Cleaning the buffers\<close>

text \<open>
  \<^verbatim>\<open>bufferCleanPacketBuffer\<close>:
  \<^verbatim>\<open>for (int i = 0; i < numberOfPackets; i++) { packetBuffer[i].positionRead = 0; packetBuffer[i].positionWrite = 1; }\<close>
\<close>

function bufferCleanPacketBuffer_loop ::
  "PacketBuffer list \<Rightarrow> int \<Rightarrow> int \<Rightarrow> PacketBuffer list option" where
  "bufferCleanPacketBuffer_loop pb i numberOfPackets =
     (if i < numberOfPackets then
        (case rd pb i of
           None \<Rightarrow> None
         | Some p \<Rightarrow>
             bufferCleanPacketBuffer_loop
               (pb[nat i := p\<lparr>positionRead := 0, positionWrite := 1\<rparr>]) (i + 1) numberOfPackets)
      else Some pb)"
  by pat_completeness auto
termination
  by (relation "measure (\<lambda>(pb, i, n). nat (n - i))") auto

declare bufferCleanPacketBuffer_loop.simps [simp del]

definition bufferCleanPacketBuffer :: "PacketBuffer list \<Rightarrow> int \<Rightarrow> PacketBuffer list option" where
  "bufferCleanPacketBuffer pb numberOfPackets = bufferCleanPacketBuffer_loop pb 0 numberOfPackets"

text \<open>\<^verbatim>\<open>bufferCleanCompletePacketBuffer\<close>: the same loop, with \<^verbatim>\<open>positionWrite = 0\<close>.\<close>

function bufferCleanCompletePacketBuffer_loop ::
  "PacketBuffer list \<Rightarrow> int \<Rightarrow> int \<Rightarrow> PacketBuffer list option" where
  "bufferCleanCompletePacketBuffer_loop pb i numberOfPackets =
     (if i < numberOfPackets then
        (case rd pb i of
           None \<Rightarrow> None
         | Some p \<Rightarrow>
             bufferCleanCompletePacketBuffer_loop
               (pb[nat i := p\<lparr>positionRead := 0, positionWrite := 0\<rparr>]) (i + 1) numberOfPackets)
      else Some pb)"
  by pat_completeness auto
termination
  by (relation "measure (\<lambda>(pb, i, n). nat (n - i))") auto

declare bufferCleanCompletePacketBuffer_loop.simps [simp del]

definition bufferCleanCompletePacketBuffer ::
  "PacketBuffer list \<Rightarrow> int \<Rightarrow> PacketBuffer list option" where
  "bufferCleanCompletePacketBuffer pb numberOfPackets =
     bufferCleanCompletePacketBuffer_loop pb 0 numberOfPackets"

definition bufferCleanBuffer :: "Buffer \<Rightarrow> int \<Rightarrow> Buffer option" where
  "bufferCleanBuffer buffer numberOfPacketsToClean =
     do { pb \<leftarrow> bufferCleanPacketBuffer (packetBuffer buffer) numberOfPacketsToClean;
          Some (buffer\<lparr>packetBuffer := pb, numberOfPacketsToSend := 0, numberOfPacketsSent := 0\<rparr>) }"

definition bufferCleanCompleteBuffer :: "Buffer \<Rightarrow> int \<Rightarrow> Buffer option" where
  "bufferCleanCompleteBuffer buffer numberOfPacketsToClean =
     do { pb \<leftarrow> bufferCleanCompletePacketBuffer (packetBuffer buffer) numberOfPacketsToClean;
          Some (buffer\<lparr>packetBuffer := pb, numberOfPacketsToSend := 0, numberOfPacketsSent := 0\<rparr>) }"

text \<open>
  \<^verbatim>\<open>bufferCleanSerial\<close> points \<^verbatim>\<open>currentPacketBufferSerial\<close> at the first packet again
  (\<^verbatim>\<open>currentPacketBufferSerial = bufferSerial.packetBuffer\<close>).
\<close>

definition bufferCleanSerial :: "int \<Rightarrow> Radio \<Rightarrow> Radio option" where
  "bufferCleanSerial numberOfPacketsToClean s =
     do { b \<leftarrow> bufferCleanBuffer (bufferSerial s) numberOfPacketsToClean;
          Some (s\<lparr>bufferSerial := b, currentPacketBufferSerial := Some 0,
                  previousPacketNumber := 0\<rparr>) }"

definition bufferCleanStreamPackets :: "int \<Rightarrow> Radio \<Rightarrow> Radio option" where
  "bufferCleanStreamPackets numberOfPacketsToClean s =
     do { b \<leftarrow> bufferCleanCompleteBuffer (bufferStreamPackets s) numberOfPacketsToClean;
          Some (s\<lparr>bufferStreamPackets := b, currentPacketBufferStreamPacket := Some 0\<rparr>) }"

definition bufferResetStreamPacketBuffer :: "Radio \<Rightarrow> Radio" where
  "bufferResetStreamPacketBuffer s =
     s\<lparr>streamPacketBuffer :=
         (streamPacketBuffer s)\<lparr>gotHead := False, bytesIn := 0, readyForLaunch := False\<rparr>\<rparr>"

section \<open>The stream packet detector of the Device\<close>

text \<open>
  \<^verbatim>\<open>processCharForStreamPacket\<close>. With \<^verbatim>\<open>gotHead\<close> set the byte is stored at
  \<^verbatim>\<open>data[bytesIn]\<close> before anything is tested, the tail byte of a stream packet
  (the 33rd byte, at index 32) included.
\<close>

definition processCharForStreamPacket :: "Config \<Rightarrow> byte \<Rightarrow> Radio \<Rightarrow> Radio option" where
  "processCharForStreamPacket cfg newChar s =
     (let sb = streamPacketBuffer s in
      if readyForLaunch sb then Some (bufferResetStreamPacketBuffer s)
      else if gotHead sb then
        do { d \<leftarrow> wr (streamData sb) (bytesIn sb) newChar;
             let sb = sb\<lparr>streamData := d, bytesIn := bytesIn sb + 1\<rparr>;
             if bytesIn sb = OPENBCI_MAX_PACKET_SIZE_BYTES + 1 then
               (if newChar AND 0xF0 = 0xF0 then
                  Some (s\<lparr>streamPacketBuffer := sb\<lparr>typeByte := newChar, readyForLaunch := True\<rparr>,
                          timeWeGot0xFXFromPic := micros s\<rparr>)
                else if newChar = OPENBCI_STREAM_PACKET_HEAD cfg then
                  Some (s\<lparr>streamPacketBuffer := sb\<lparr>bytesIn := 1\<rparr>\<rparr>)
                else Some (s\<lparr>streamPacketBuffer := sb\<lparr>gotHead := False\<rparr>\<rparr>))
             else Some (s\<lparr>streamPacketBuffer := sb\<rparr>) }
      else if newChar = 0x41 then
        Some (s\<lparr>streamPacketBuffer := sb\<lparr>bytesIn := 1, gotHead := True\<rparr>\<rparr>)
      else Some s)"

text \<open>The detector given a sequence of bytes, one call for each.\<close>

fun processCharsForStreamPacket :: "Config \<Rightarrow> byte list \<Rightarrow> Radio \<Rightarrow> Radio option" where
  "processCharsForStreamPacket cfg [] s = Some s"
| "processCharsForStreamPacket cfg (newChar # serial) s =
     (case processCharForStreamPacket cfg newChar s of
        None \<Rightarrow> None
      | Some s' \<Rightarrow> processCharsForStreamPacket cfg serial s')"


definition isAStreamPacketWaitingForLaunch :: "Radio \<Rightarrow> bool" where
  "isAStreamPacketWaitingForLaunch s = readyForLaunch (streamPacketBuffer s)"



section \<open>Serial ingestion\<close>

text \<open>
  One turn of the \<^verbatim>\<open>while (Serial.available())\<close> loop of \<^verbatim>\<open>bufferSerialFetch\<close>, in
  its two blocks. The first is the block under
  \<^verbatim>\<open>if (currentPacketBufferSerial->positionWrite >= OPENBCI_MAX_PACKET_SIZE_BYTES)\<close>; the
  test reads through the cursor whatever it is. On overflow the cursor is set to \<^verbatim>\<open>NULL\<close>
  and \<^verbatim>\<open>bufferCleanSerial\<close>, called next, points it at the first packet again.
\<close>

definition bufferSerialFetch_nextPacket :: "Config \<Rightarrow> Radio \<Rightarrow> Radio option" where
  "bufferSerialFetch_nextPacket cfg s =
     do { c \<leftarrow> currentPacketBufferSerial s;
          p \<leftarrow> rd (packetBuffer (bufferSerial s)) c;
          if positionWrite p \<ge> OPENBCI_MAX_PACKET_SIZE_BYTES then
            (let s = s\<lparr>bufferSerial := (bufferSerial s)
                       \<lparr>numberOfPacketsToSend := numberOfPacketsToSend (bufferSerial s) + 1\<rparr>\<rparr>
             in if numberOfPacketsToSend (bufferSerial s) \<ge> OPENBCI_MAX_NUMBER_OF_BUFFERS cfg then
                  do { let s = s\<lparr>currentPacketBufferSerial := None\<rparr>;
                       s \<leftarrow> bufferCleanSerial (OPENBCI_MAX_NUMBER_OF_BUFFERS cfg) s;
                       if isDevice s then
                         do { s \<leftarrow> sendToHost [ORPM_DEVICE_SERIAL_OVERFLOW cfg] 1 s;
                              Some (emit (SerialPrint ''v'') s) }
                       else if isHost s then Some (emit (SerialPrint ''Input too large!$$$'') s)
                       else Some s }
                else Some (s\<lparr>currentPacketBufferSerial := Some (c + 1)\<rparr>))
          else Some s }"

text \<open>
  The second block is \<^verbatim>\<open>if (currentPacketBufferSerial) { ... } else { ... }\<close>;
  \<open>newChar\<close> is the byte the one \<^verbatim>\<open>Serial.read()\<close> of the turn returns.
\<close>

definition bufferSerialFetch_store :: "Config \<Rightarrow> byte \<Rightarrow> Radio \<Rightarrow> Radio option" where
  "bufferSerialFetch_store cfg newChar s =
     (case currentPacketBufferSerial s of
        Some c \<Rightarrow>
          do { p \<leftarrow> rd (packetBuffer (bufferSerial s)) c;
               d \<leftarrow> wr (data p) (positionWrite p) newChar;
               let p = p\<lparr>data := d, positionWrite := positionWrite p + 1\<rparr>;
               let s = s\<lparr>bufferSerial := (bufferSerial s)
                         \<lparr>packetBuffer := (packetBuffer (bufferSerial s))[nat c := p]\<rparr>\<rparr>;
               if isDevice s then processCharForStreamPacket cfg newChar s else Some s }
      | None \<Rightarrow>
          Some (if verbosePrintouts s
                then emit (SerialPrintlnNum (uint newChar)) (emit (SerialPrint ''BO:'') s)
                else s))"

definition bufferSerialFetch_body :: "Config \<Rightarrow> byte \<Rightarrow> Radio \<Rightarrow> Radio option" where
  "bufferSerialFetch_body cfg newChar s =
     do { s \<leftarrow> bufferSerialFetch_nextPacket cfg s;
          s \<leftarrow> bufferSerialFetch_store cfg newChar s;
          let s = (if isDevice s then pollRefresh s else s);
          Some (s\<lparr>lastTimeNewSerialDataWasAvailable := millis s\<rparr>) }"

text \<open>The loop runs once for each byte the serial port holds or receives meanwhile.\<close>

fun bufferSerialFetch_loop :: "Config \<Rightarrow> byte list \<Rightarrow> Radio \<Rightarrow> Radio option" where
  "bufferSerialFetch_loop cfg [] s = Some s"
| "bufferSerialFetch_loop cfg (newChar # serial) s =
     (case bufferSerialFetch_body cfg newChar s of
        None \<Rightarrow> None
      | Some s' \<Rightarrow> bufferSerialFetch_loop cfg serial s')"

definition bufferSerialFetch :: "Config \<Rightarrow> byte list \<Rightarrow> Radio \<Rightarrow> Radio option" where
  "bufferSerialFetch cfg serial s =
     (let s = (if numberOfPacketsToSend (bufferSerial s) = 0
               then s\<lparr>bufferSerial := (bufferSerial s)\<lparr>numberOfPacketsToSend := 1\<rparr>\<rparr>
               else s)
      in bufferSerialFetch_loop cfg serial s)"

section \<open>Stream packets on the Host\<close>

text \<open>One turn of the \<^verbatim>\<open>for\<close> loop of \<^verbatim>\<open>bufferAddStreamPacket\<close>, at index \<open>i\<close>.\<close>

definition bufferAddStreamPacket_body :: "Config \<Rightarrow> byte list \<Rightarrow> int \<Rightarrow> Radio \<Rightarrow> Radio option" where
  "bufferAddStreamPacket_body cfg dat i s =
     do { c \<leftarrow> currentPacketBufferStreamPacket s;
          p \<leftarrow> rd (packetBuffer (bufferStreamPackets s)) c;
          let s = (if positionWrite p \<ge> OPENBCI_MAX_PACKET_SIZE_BYTES then
                     (let s = s\<lparr>bufferStreamPackets := (bufferStreamPackets s)
                                \<lparr>numberOfPacketsToSend :=
                                   numberOfPacketsToSend (bufferStreamPackets s) + 1\<rparr>\<rparr>
                      in if numberOfPacketsToSend (bufferStreamPackets s)
                              \<ge> OPENBCI_MAX_NUMBER_OF_BUFFERS cfg
                         then s\<lparr>currentPacketBufferStreamPacket := None\<rparr>
                         else s\<lparr>currentPacketBufferStreamPacket := Some (c + 1)\<rparr>)
                   else s);
          (case currentPacketBufferStreamPacket s of
             Some c \<Rightarrow>
               do { p \<leftarrow> rd (packetBuffer (bufferStreamPackets s)) c;
                    x \<leftarrow> rd dat i;
                    d \<leftarrow> wr (data p) (positionWrite p) x;
                    let p = p\<lparr>data := d, positionWrite := positionWrite p + 1\<rparr>;
                    Some (s\<lparr>bufferStreamPackets := (bufferStreamPackets s)
                            \<lparr>packetBuffer := (packetBuffer (bufferStreamPackets s))[nat c := p]\<rparr>\<rparr>) }
           | None \<Rightarrow> Some s) }"

function bufferAddStreamPacket_loop ::
  "Config \<Rightarrow> byte list \<Rightarrow> int \<Rightarrow> int \<Rightarrow> Radio \<Rightarrow> Radio option" where
  "bufferAddStreamPacket_loop cfg dat i len s =
     (if i < len then
        (case bufferAddStreamPacket_body cfg dat i s of
           None \<Rightarrow> None
         | Some s' \<Rightarrow> bufferAddStreamPacket_loop cfg dat (i + 1) len s')
      else Some s)"
  by pat_completeness auto
termination
  by (relation "measure (\<lambda>(cfg, dat, i, len, s). nat (len - i))") auto

declare bufferAddStreamPacket_loop.simps [simp del]

definition bufferAddStreamPacket :: "Config \<Rightarrow> byte list \<Rightarrow> int \<Rightarrow> Radio \<Rightarrow> Radio option" where
  "bufferAddStreamPacket cfg dat len s =
     (let s = (if numberOfPacketsToSend (bufferStreamPackets s) = 0
               then s\<lparr>bufferStreamPackets := (bufferStreamPackets s)\<lparr>numberOfPacketsToSend := 1\<rparr>\<rparr>
               else s)
      in bufferAddStreamPacket_loop cfg dat 0 len s)"

text \<open>
  \<^verbatim>\<open>writeStreamPacket(char *data)\<close>: the start byte, \<^verbatim>\<open>data[1]\<close> to \<^verbatim>\<open>data[31]\<close>, and the
  stop byte made from \<^verbatim>\<open>data[0]\<close>.
\<close>

function writeStreamPacket_loop :: "byte list \<Rightarrow> int \<Rightarrow> int \<Rightarrow> event list option" where
  "writeStreamPacket_loop dat i positionToStopReading =
     (if i < positionToStopReading then
        (case rd dat i of
           None \<Rightarrow> None
         | Some x \<Rightarrow>
             (case writeStreamPacket_loop dat (i + 1) positionToStopReading of
                None \<Rightarrow> None
              | Some written \<Rightarrow> Some (SerialWrite x # written)))
      else Some [])"
  by pat_completeness auto
termination
  by (relation "measure (\<lambda>(dat, i, n). nat (n - i))") auto

declare writeStreamPacket_loop.simps [simp del]

text \<open>\<open>writeStreamPacket\<close> returns what it writes to the serial port, in order.\<close>

definition writeStreamPacket :: "Config \<Rightarrow> byte list \<Rightarrow> event list option" where
  "writeStreamPacket cfg dat =
     do { let positionToStopReading = OPENBCI_MAX_DATA_BYTES_IN_PACKET + 1;
          written \<leftarrow> writeStreamPacket_loop dat 1 positionToStopReading;
          b0 \<leftarrow> rd dat 0;
          Some (SerialWrite (OPENBCI_STREAM_BYTE_START cfg) # written
                @ [SerialWrite (outputGetStopByteFromByteId b0)]) }"

text \<open>
  \<^verbatim>\<open>writeTheHostsStreamPacketBufferToThePC\<close>. The argument of \<^verbatim>\<open>writeStreamPacket\<close> is
  \<^verbatim>\<open>bufferStreamPackets.packetBuffer->data + bufferStreamPackets.numberOfPacketsSent\<close>: the
  \<^verbatim>\<open>data\<close> array of the first packet, moved on by \<^verbatim>\<open>numberOfPacketsSent\<close> bytes.
\<close>

definition streamPacketPointer :: "Radio \<Rightarrow> byte list option" where
  "streamPacketPointer s =
     do { p0 \<leftarrow> rd (packetBuffer (bufferStreamPackets s)) 0;
          let sent = numberOfPacketsSent (bufferStreamPackets s);
          if 0 \<le> sent \<and> sent \<le> int (length (data p0))
          then Some (drop (nat sent) (data p0)) else None }"

function writeTheHostsStreamPacketBufferToThePC_loop :: "Config \<Rightarrow> Radio \<Rightarrow> Radio option" where
  "writeTheHostsStreamPacketBufferToThePC_loop cfg s =
     (if numberOfPacketsToSend (bufferStreamPackets s) > numberOfPacketsSent (bufferStreamPackets s)
      then
        (case do { dat \<leftarrow> streamPacketPointer s; writeStreamPacket cfg dat } of
           None \<Rightarrow> None
         | Some written \<Rightarrow>
             writeTheHostsStreamPacketBufferToThePC_loop cfg
               (s\<lparr>out := out s @ written,
                   bufferStreamPackets := (bufferStreamPackets s)
                     \<lparr>numberOfPacketsSent := numberOfPacketsSent (bufferStreamPackets s) + 1\<rparr>\<rparr>))
      else Some s)"
  by pat_completeness auto
termination
  by (relation "measure (\<lambda>(cfg, s). nat (numberOfPacketsToSend (bufferStreamPackets s)
                                        - numberOfPacketsSent (bufferStreamPackets s)))") auto

declare writeTheHostsStreamPacketBufferToThePC_loop.simps [simp del]

definition writeTheHostsStreamPacketBufferToThePC :: "Config \<Rightarrow> Radio \<Rightarrow> Radio option" where
  "writeTheHostsStreamPacketBufferToThePC cfg s =
     do { s \<leftarrow> writeTheHostsStreamPacketBufferToThePC_loop cfg s;
          bufferCleanStreamPackets (numberOfPacketsToSend (bufferStreamPackets s)) s }"

section \<open>The radio channel in flash\<close>

text \<open>
  \<^verbatim>\<open>setChannelNumber\<close>. \<^verbatim>\<open>flashPageErase\<close> and \<^verbatim>\<open>flashWrite\<close> belong to the board's
  library: a page that was erased reads \<^verbatim>\<open>0xFFFFFFFF\<close>, a word that was written reads the
  value written. A result of \<^verbatim>\<open>flashWrite\<close> other than 0, 1 or 2 lets the function run off
  its end without a \<^verbatim>\<open>return\<close>.
\<close>

definition setChannelNumber :: "Config \<Rightarrow> 32 word \<Rightarrow> Radio \<Rightarrow> (bool \<times> Radio) option" where
  "setChannelNumber cfg channelNumber s =
     (let channelNumber = (if RFDUINOGZLL_CHANNEL_LIMIT_UPPER cfg < channelNumber
                           then RFDUINOGZLL_CHANNEL_LIMIT_UPPER cfg else channelNumber);
          rc = flashPageEraseResult s
      in if rc = 1 then
           Some (False, if isHost s
                        then emit (SerialPrintln ''Error - the flash page is reserved$$$'') s else s)
         else if rc = 2 then
           Some (False, if isHost s
                        then emit (SerialPrintln ''Error - the flash page is used by the sketch$$$'') s
                        else s)
         else
           (let s = s\<lparr>flashChannel := 0xFFFFFFFF\<rparr>;
                rc = flashWriteResult s
            in if rc = 0 then
                 Some (True, emit (SerialPrintln ''Channel Number Set$$$'')
                               (s\<lparr>flashChannel := channelNumber\<rparr>))
               else if rc = 1 then
                 Some (False, if isHost s
                              then emit (SerialPrintln ''Error - the flash page is reserved$$$'') s
                              else s)
               else if rc = 2 then
                 Some (False, if isHost s
                              then emit (SerialPrintln
                                           ''Error - the flash page is used by the sketch$$$'') s
                              else s)
               else None))"

section \<open>The receive handler\<close>

text \<open>
  \<^verbatim>\<open>RFduinoGZLL_onReceive(device, rssi, data, len)\<close> in four parts: its three branches on
  \<^verbatim>\<open>len\<close>, each returning \<^verbatim>\<open>willSendDataFromBufferSerial\<close> with the state, and the block
  that sends a packet of \<^verbatim>\<open>bufferSerial\<close>. \<open>dat\<close> is what can be read at \<^verbatim>\<open>data\<close>.
\<close>

text \<open>\<^verbatim>\<open>len == 1\<close>: a radio code. The \<^verbatim>\<open>switch\<close> tries its labels in the order written.\<close>

definition onReceive_radioCode :: "Config \<Rightarrow> nat \<Rightarrow> byte list \<Rightarrow> Radio \<Rightarrow> (bool \<times> Radio) option" where
  "onReceive_radioCode cfg device dat s =
     do { privateRadioCode \<leftarrow> rd dat 0;
          if isWaitingForNewChannelNumber s then
            do { let s = pollRefresh (s\<lparr>isWaitingForNewChannelNumber := False\<rparr>);
                 (success, s) \<leftarrow> setChannelNumber cfg (ucast privateRadioCode) s;
                 if success then
                   do { s \<leftarrow> pollHost (s\<lparr>gzllChannel := ucast privateRadioCode\<rparr>); Some (False, s) }
                 else Some (False, s) }
          else if privateRadioCode = ORPM_PACKET_BAD_CHECK_SUM cfg then
            Some (True, verbosePrintln ''R<-B''
                          (s\<lparr>bufferSerial := (bufferSerial s)
                               \<lparr>numberOfPacketsSent := numberOfPacketsSent (bufferSerial s) - 1\<rparr>\<rparr>))
          else if privateRadioCode = ORPM_PACKET_MISSED cfg then
            Some (True, verbosePrintln ''R<-M''
                          (s\<lparr>bufferSerial := (bufferSerial s)\<lparr>numberOfPacketsSent := 0\<rparr>\<rparr>))
          else if privateRadioCode = ORPM_CHANGE_CHANNEL_HOST_REQUEST cfg then
            (let s = verbosePrintln ''R<-CCHR'' s
             in if isHost s then
                  do { s \<leftarrow> sendToDevice device [ORPM_INVALID_CODE_RECEIVED cfg] 1 s; Some (False, s) }
                else
                  do { s \<leftarrow> sendToHost [ORPM_CHANGE_CHANNEL_DEVICE_READY cfg] 1
                              (s\<lparr>isWaitingForNewChannelNumber := True\<rparr>);
                       Some (False, pollRefresh s) })
          else if privateRadioCode = ORPM_CHANGE_CHANNEL_DEVICE_READY cfg then
            (let s = verbosePrintln ''R<-CCDR'' s
             in if isHost s then
                  do { s \<leftarrow> sendToDevice device [ucast (radioChannel s)] 1 s;
                       (success, s) \<leftarrow> setChannelNumber cfg (radioChannel s) s;
                       Some (False, s\<lparr>gzllChannel := radioChannel s\<rparr>) }
                else
                  do { s \<leftarrow> sendToHost [ORPM_CHANGE_CHANNEL_DEVICE_READY cfg] 1 s;
                       Some (False, pollRefresh s) })
          else
            (if isHost s then
               do { s \<leftarrow> sendToDevice device [ORPM_INVALID_CODE_RECEIVED cfg] 1 s; Some (False, s) }
             else
               do { s \<leftarrow> sendToHost [ORPM_INVALID_CODE_RECEIVED cfg] 1 s;
                    Some (False, pollRefresh s) }) }"

text \<open>
  What both other branches do once the packet is dealt with: mark a packet of
  \<^verbatim>\<open>bufferSerial\<close> for sending, or clean a buffer that was sent whole. With \<open>poll\<close> set
  (the branch \<^verbatim>\<open>len > 1\<close>) a Device with nothing to send polls the Host.
\<close>

definition onReceive_moreToSend :: "Config \<Rightarrow> bool \<Rightarrow> Radio \<Rightarrow> (bool \<times> Radio) option" where
  "onReceive_moreToSend cfg poll s =
     (let b = bufferSerial s
      in if numberOfPacketsSent b < numberOfPacketsToSend b then
           Some (theLastTimeNewSerialDataWasAvailableWasLongEnough cfg s, s)
         else if numberOfPacketsSent b = numberOfPacketsToSend b \<and> numberOfPacketsToSend b \<noteq> 0 then
           do { s \<leftarrow> bufferCleanSerial (numberOfPacketsSent b) s; Some (False, s) }
         else if poll \<and> isDevice s then
           do { s \<leftarrow> pollHost s; Some (False, s) }
         else Some (False, s))"

text \<open>
  The loop that copies the payload of a packet that is not a stream packet into
  \<^verbatim>\<open>bufferRadio\<close>: \<^verbatim>\<open>for (int i = 1; i < len; i++)\<close>, each byte stored only while
  \<^verbatim>\<open>bufferPositionWriteRadio < OPENBCI_BUFFER_LENGTH\<close>.
\<close>

function onReceive_store_loop :: "Config \<Rightarrow> byte list \<Rightarrow> int \<Rightarrow> int \<Rightarrow> Radio \<Rightarrow> Radio option" where
  "onReceive_store_loop cfg dat i len s =
     (if i < len then
        (if bufferPositionWriteRadio s < OPENBCI_BUFFER_LENGTH cfg then
           (case do { x \<leftarrow> rd dat i; wr (bufferRadio s) (bufferPositionWriteRadio s) x } of
              None \<Rightarrow> None
            | Some r \<Rightarrow>
                onReceive_store_loop cfg dat (i + 1) len
                  (s\<lparr>bufferRadio := r, bufferPositionWriteRadio := bufferPositionWriteRadio s + 1\<rparr>))
         else onReceive_store_loop cfg dat (i + 1) len s)
      else Some s)"
  by pat_completeness auto
termination
  by (relation "measure (\<lambda>(cfg, dat, i, len, s). nat (len - i))") auto

declare onReceive_store_loop.simps [simp del]

text \<open>
  \<^verbatim>\<open>len > 1\<close>, first half: the check sum and the packet number decide
  \<^verbatim>\<open>goodToAddPacketToRadioBuffer\<close>, \<^verbatim>\<open>msg[0]\<close> (\<open>None\<close> while nothing was assigned to it)
  and \<^verbatim>\<open>gotLastPacket\<close>.
\<close>

definition onReceive_verify ::
  "Config \<Rightarrow> byte list \<Rightarrow> int \<Rightarrow> Radio \<Rightarrow> (bool \<times> byte option \<times> bool \<times> Radio) option" where
  "onReceive_verify cfg dat len s =
     do { b0 \<leftarrow> rd dat 0;
          let packetNumber = byteIdGetPacketNumber b0;
          let s = (if verbosePrintouts s
                   then emit (SerialPrintlnNum packetNumber) (emit (SerialPrint ''R<-'') s) else s);
          equal \<leftarrow> checkSumsAreEqual dat len;
          if equal then
            (if packetNumber = 0 \<and> previousPacketNumber s = 0 then
               Some (True, None, True, s)
             else if packetNumber > 0 \<and> previousPacketNumber s = 0 then
               Some (True, None, False, s\<lparr>previousPacketNumber := packetNumber\<rparr>)
             else if previousPacketNumber s - packetNumber = 1 then
               Some (True, None, packetNumber = 0, s\<lparr>previousPacketNumber := packetNumber\<rparr>)
             else
               Some (False, Some (ORPM_PACKET_MISSED cfg AND 0xFF), False,
                     verbosePrintln ''S->M''
                       (s\<lparr>bufferPositionWriteRadio := 0, previousPacketNumber := 0\<rparr>)))
          else
            Some (False, Some (ORPM_PACKET_BAD_CHECK_SUM cfg AND 0xFF), False,
                  verbosePrintln ''S->B'' s) }"

text \<open>\<^verbatim>\<open>len > 1\<close>, second half: the packet is stored, or the message is sent back.\<close>

definition onReceive_packet ::
  "Config \<Rightarrow> nat \<Rightarrow> byte list \<Rightarrow> int \<Rightarrow> Radio \<Rightarrow> (bool \<times> Radio) option" where
  "onReceive_packet cfg device dat len s =
     do { (goodToAddPacketToRadioBuffer, msg, gotLastPacket, s) \<leftarrow> onReceive_verify cfg dat len s;
          if goodToAddPacketToRadioBuffer then
            do { b0 \<leftarrow> rd dat 0;
                 s \<leftarrow> (if byteIdGetIsStream b0 then bufferAddStreamPacket cfg dat len s
                        else do { s \<leftarrow> onReceive_store_loop cfg dat 1 len s;
                                  Some (if gotLastPacket
                                        then s\<lparr>isTheHostsRadioBufferFilledWithAllThePacketsFromTheDevice := True,
                                                isTheDevicesRadioBufferFilledWithAllThePacketsFromTheHost := True\<rparr>
                                        else s) });
                 (willSendDataFromBufferSerial, s) \<leftarrow> onReceive_moreToSend cfg True s;
                 Some (willSendDataFromBufferSerial, verbosePrintln ''S->N'' s) }
          else
            do { m \<leftarrow> msg;
                 if isHost s then
                   do { s \<leftarrow> sendToDevice device [m] 1 s; Some (False, s) }
                 else
                   do { s \<leftarrow> sendToHost [m] 1 s; Some (False, pollRefresh s) } } }"

text \<open>\<^verbatim>\<open>len\<close> neither 1 nor greater: the packet without a byte that acknowledges.\<close>

definition onReceive_ack :: "Config \<Rightarrow> Radio \<Rightarrow> (bool \<times> Radio) option" where
  "onReceive_ack cfg s =
     (if isWaitingForNewChannelNumberConfirmation s then
        Some (False, emit (SerialWrite (OPENBCI_HOST_CHANNEL_CHANGE_SUCCESS cfg))
                       (s\<lparr>isWaitingForNewChannelNumberConfirmation := False\<rparr>))
      else onReceive_moreToSend cfg False s)"

text \<open>
  The block under \<^verbatim>\<open>if (willSendDataFromBufferSerial)\<close>. The packet it sends is
  \<^verbatim>\<open>radio.bufferSerial.packetBuffer + radio.bufferSerial.numberOfPacketsSent\<close>. In the test
  for a channel change, \<^verbatim>\<open>data[2]\<close> is a byte of the packet received, not of that packet.
  \<^verbatim>\<open>numberOfPacketsSent\<close> is incremented on every path, that of
  \<^verbatim>\<open>bufferCleanSerial(1)\<close> too.
\<close>

definition verbosePrintSend :: "int \<Rightarrow> Radio \<Rightarrow> Radio" where
  "verbosePrintSend packetNumber s =
     (if verbosePrintouts s
      then emit (SerialPrintlnNum packetNumber) (emit (SerialPrint ''S->'') s) else s)"

definition onReceive_sendData :: "Config \<Rightarrow> nat \<Rightarrow> byte list \<Rightarrow> Radio \<Rightarrow> Radio option" where
  "onReceive_sendData cfg device dat s =
     do { let b = bufferSerial s;
          let packetNumber = numberOfPacketsToSend b - numberOfPacketsSent b - 1;
          p \<leftarrow> rd (packetBuffer b) (numberOfPacketsSent b);
          byteId \<leftarrow> byteIdMake False packetNumber (Some (drop 1 (data p))) (positionWrite p - 1);
          d \<leftarrow> wr (data p) 0 byteId;
          let p = p\<lparr>data := d\<rparr>;
          let s = s\<lparr>bufferSerial := b\<lparr>packetBuffer := (packetBuffer b)[nat (numberOfPacketsSent b) := p]\<rparr>\<rparr>;
          s \<leftarrow> (if isHost s then
                 (if numberOfPacketsToSend b = 1 \<and> packetNumber = 0 then
                    (if positionWrite p = 2 then
                       do { d1 \<leftarrow> rd (data p) 1;
                            if d1 = OPENBCI_HOST_TIME_SYNC cfg then
                              sendToDevice device (data p) (positionWrite p)
                                (emit (SerialWrite (OPENBCI_HOST_TIME_SYNC_ACK cfg)) s)
                            else if d1 = OPENBCI_HOST_CHANNEL_QUERY cfg then
                              bufferCleanSerial 1 (emit (SerialWrite (ucast (getChannelNumber s))) s)
                            else sendToDevice device (data p) (positionWrite p)
                                   (verbosePrintSend packetNumber s) }
                     else if positionWrite p = 3 then
                       do { d1 \<leftarrow> rd (data p) 1;
                            if d1 = OPENBCI_HOST_CHANNEL_CHANGE cfg then
                              do { x2 \<leftarrow> rd dat 2;
                                   if RFDUINOGZLL_CHANNEL_LIMIT_UPPER cfg < ucast x2 then
                                     Some (emit (SerialWrite (OPENBCI_HOST_CHANNEL_CHANGE_INVALID cfg)) s)
                                   else
                                     do { d2 \<leftarrow> rd (data p) 2;
                                          let s = (if verbosePrintouts s
                                                   then emit (SerialPrintlnNum (uint d2))
                                                          (emit (SerialPrint ''New channel: '') s)
                                                   else s);
                                          let s = s\<lparr>previousRadioChannel := getChannelNumber s,
                                                     radioChannel := ucast d2\<rparr>;
                                          sendToDevice device [ORPM_CHANGE_CHANNEL_HOST_REQUEST cfg] 1 s } }
                            else sendToDevice device (data p) (positionWrite p)
                                   (verbosePrintSend packetNumber s) }
                     else sendToDevice device (data p) (positionWrite p)
                            (verbosePrintSend packetNumber s))
                  else sendToDevice device (data p) (positionWrite p)
                         (verbosePrintSend packetNumber s))
               else
                 do { s \<leftarrow> sendToHost (data p) (positionWrite p) (verbosePrintSend packetNumber s);
                      Some (pollRefresh s) });
          Some (s\<lparr>bufferSerial := (bufferSerial s)
                  \<lparr>numberOfPacketsSent := numberOfPacketsSent (bufferSerial s) + 1\<rparr>\<rparr>) }"

definition RFduinoGZLL_onReceive ::
  "Config \<Rightarrow> nat \<Rightarrow> int \<Rightarrow> byte list \<Rightarrow> int \<Rightarrow> Radio \<Rightarrow> Radio option" where
  "RFduinoGZLL_onReceive cfg device rssi dat len s =
     do { let s = (if isHost s then s\<lparr>lastTimeHostHeardFromDevice := millis s\<rparr> else s);
          (willSendDataFromBufferSerial, s) \<leftarrow>
            (if len = 1 then onReceive_radioCode cfg device dat s
             else if len > 1 then onReceive_packet cfg device dat len s
             else onReceive_ack cfg s);
          if willSendDataFromBufferSerial then onReceive_sendData cfg device dat s else Some s }"

section \<open>What the statements about the buffers speak of\<close>



text \<open>
  \<^verbatim>\<open>bufferSerial\<close> as \<^verbatim>\<open>bufferCleanSerial(OPENBCI_MAX_NUMBER_OF_BUFFERS)\<close> leaves it: both
  counters 0, the cursor at the first of the \<^verbatim>\<open>OPENBCI_MAX_NUMBER_OF_BUFFERS\<close> packets,
  every packet with \<^verbatim>\<open>positionWrite\<close> 1 and a \<^verbatim>\<open>data\<close> array of 32 bytes.
\<close>

definition cleanSerial :: "Config \<Rightarrow> Radio \<Rightarrow> bool" where
  "cleanSerial cfg s =
     (numberOfPacketsToSend (bufferSerial s) = 0 \<and>
      numberOfPacketsSent (bufferSerial s) = 0 \<and>
      currentPacketBufferSerial s = Some 0 \<and>
      int (length (packetBuffer (bufferSerial s))) = OPENBCI_MAX_NUMBER_OF_BUFFERS cfg \<and>
      list_all (\<lambda>p. positionWrite p = 1 \<and> length (data p) = 32) (packetBuffer (bufferSerial s)))"

text \<open>
  The stream packet detector can take a byte: its array has a cell for each of the 33 bytes
  it stores (the indices 0 to 32), and while it collects a packet \<^verbatim>\<open>bytesIn\<close> is between
  1 and 32.
\<close>

definition detectorReady :: "Radio \<Rightarrow> bool" where
  "detectorReady s =
     (33 \<le> length (streamData (streamPacketBuffer s)) \<and>
      (readyForLaunch (streamPacketBuffer s) \<or> \<not> gotHead (streamPacketBuffer s) \<or>
       (1 \<le> bytesIn (streamPacketBuffer s) \<and> bytesIn (streamPacketBuffer s) \<le> 32)))"

text \<open>What the detector reads and writes: its buffer, the time stamp of the tail, the clock.\<close>

definition detectorState :: "Radio \<Rightarrow> StreamPacketBuffer \<times> 32 word \<times> 32 word" where
  "detectorState s = (streamPacketBuffer s, timeWeGot0xFXFromPic s, micros s)"

text \<open>
  \<^verbatim>\<open>bufferSerial\<close> can take bytes: the cursor points at one of the
  \<^verbatim>\<open>OPENBCI_MAX_NUMBER_OF_BUFFERS\<close> packets and is not ahead of \<^verbatim>\<open>numberOfPacketsToSend\<close>,
  which is at most \<^verbatim>\<open>OPENBCI_MAX_NUMBER_OF_BUFFERS\<close>; every \<^verbatim>\<open>data\<close> array has 32 bytes and
  no \<^verbatim>\<open>positionWrite\<close> is negative; the packets behind the cursor are not full.
\<close>

definition serialReady :: "Config \<Rightarrow> Radio \<Rightarrow> bool" where
  "serialReady cfg s =
     (let b = bufferSerial s; pb = packetBuffer b
      in case currentPacketBufferSerial s of
           None \<Rightarrow> False
         | Some c \<Rightarrow>
             0 \<le> c \<and> c < int (length pb) \<and>
             int (length pb) = OPENBCI_MAX_NUMBER_OF_BUFFERS cfg \<and>
             c \<le> numberOfPacketsToSend b \<and>
             numberOfPacketsToSend b \<le> OPENBCI_MAX_NUMBER_OF_BUFFERS cfg \<and>
             list_all (\<lambda>p. length (data p) = 32 \<and> 0 \<le> positionWrite p) pb \<and>
             list_all (\<lambda>p. positionWrite p < 32) (drop (Suc (nat c)) pb))"


text \<open>What the overflow branch of \<^verbatim>\<open>bufferSerialFetch\<close> sends and prints.\<close>

definition overflowSignal :: "Config \<Rightarrow> Radio \<Rightarrow> event list" where
  "overflowSignal cfg s =
     (if isDevice s then [SendToHost [ORPM_DEVICE_SERIAL_OVERFLOW cfg], SerialPrint ''v'']
      else if isHost s then [SerialPrint ''Input too large!$$$''] else [])"

section \<open>A configuration and three radios for the examples\<close>

text \<open>
  The examples run with four packet buffers (the number the specification gives as an
  example), a radio buffer of 64 bytes, and radio codes that differ from each other.
\<close>

definition exampleConfig :: Config where
  "exampleConfig =
     \<lparr>OPENBCI_MAX_NUMBER_OF_BUFFERS = 4,
      OPENBCI_BUFFER_LENGTH = 64,
      OPENBCI_MAX_SERIAL_TIMEOUT_MS = 3,
      OPENBCI_SERIAL_TIMEOUT_uS = 100,
      RFDUINOGZLL_CHANNEL_LIMIT_UPPER = 25,
      ORPM_INVALID_CODE_RECEIVED = 0x00,
      ORPM_PACKET_BAD_CHECK_SUM = 0x01,
      ORPM_PACKET_MISSED = 0x02,
      ORPM_DEVICE_SERIAL_OVERFLOW = 0x04,
      ORPM_CHANGE_CHANNEL_HOST_REQUEST = 0x05,
      ORPM_CHANGE_CHANNEL_DEVICE_READY = 0x06,
      OPENBCI_HOST_TIME_SYNC = 0x3C,
      OPENBCI_HOST_TIME_SYNC_ACK = 0x2C,
      OPENBCI_HOST_CHANNEL_QUERY = 0x00,
      OPENBCI_HOST_CHANNEL_CHANGE = 0x01,
      OPENBCI_HOST_CHANNEL_CHANGE_SUCCESS = 0x05,
      OPENBCI_HOST_CHANNEL_CHANGE_INVALID = 0x03,
      OPENBCI_STREAM_BYTE_START = 0xA0,
      OPENBCI_STREAM_PACKET_HEAD = 0x41\<rparr>"

text \<open>A packet as \<^verbatim>\<open>bufferCleanPacketBuffer\<close> leaves it, with 32 bytes of zero.\<close>

definition cleanPacket :: PacketBuffer where
  "cleanPacket = \<lparr>data = replicate 32 0x00, positionRead = 0, positionWrite = 1\<rparr>"

text \<open>A packet as \<^verbatim>\<open>bufferCleanCompletePacketBuffer\<close> leaves it.\<close>

definition cleanCompletePacket :: PacketBuffer where
  "cleanCompletePacket = \<lparr>data = replicate 32 0x00, positionRead = 0, positionWrite = 0\<rparr>"

text \<open>
  A Host as the constructor and \<^verbatim>\<open>configure\<close> leave the global object \<^verbatim>\<open>radio\<close> when the
  flash holds channel 25: \<^verbatim>\<open>verbosePrintouts\<close> set by the constructor, \<^verbatim>\<open>bufferRadio\<close>,
  \<^verbatim>\<open>bufferSerial\<close> and \<^verbatim>\<open>bufferStreamPackets\<close> cleaned, every field that nothing assigns
  zero. The clocks are at 1000, and \<open>out\<close> starts empty: it collects what is sent and
  written from this state on. The array of the stream packet buffer is declared in the
  header; here it has the 32 cells of a packet.
\<close>

definition exampleHost :: Radio where
  "exampleHost =
     \<lparr>isHost = True,
      isDevice = False,
      verbosePrintouts = True,
      radioChannel = 25,
      previousRadioChannel = 0,
      gzllChannel = 25,
      flashChannel = 25,
      isWaitingForNewChannelNumber = False,
      isWaitingForNewChannelNumberConfirmation = False,
      bufferSerial = \<lparr>numberOfPacketsToSend = 0, numberOfPacketsSent = 0,
                      packetBuffer = replicate 4 cleanPacket\<rparr>,
      currentPacketBufferSerial = Some 0,
      bufferStreamPackets = \<lparr>numberOfPacketsToSend = 0, numberOfPacketsSent = 0,
                             packetBuffer = replicate 4 cleanCompletePacket\<rparr>,
      currentPacketBufferStreamPacket = Some 0,
      streamPacketBuffer = \<lparr>gotHead = False, readyForLaunch = False, typeByte = 0x00,
                            streamData = replicate 32 0x00, bytesIn = 0\<rparr>,
      bufferRadio = replicate 64 0x00,
      bufferPositionWriteRadio = 0,
      isTheDevicesRadioBufferFilledWithAllThePacketsFromTheHost = False,
      isTheHostsRadioBufferFilledWithAllThePacketsFromTheDevice = False,
      previousPacketNumber = 0,
      lastTimeHostHeardFromDevice = 0,
      lastTimeNewSerialDataWasAvailable = 0,
      timeOfLastPoll = 0,
      timeWeGot0xFXFromPic = 0,
      millis = 1000,
      micros = 1000,
      flashPageEraseResult = 0,
      flashWriteResult = 0,
      out = []\<rparr>"

text \<open>
  A Device as the constructor and \<^verbatim>\<open>configure\<close> leave it, at the same clock.
  \<^verbatim>\<open>configureDevice\<close> does not call \<^verbatim>\<open>bufferCleanStreamPackets\<close>, so
  \<^verbatim>\<open>currentPacketBufferStreamPacket\<close> is still \<^verbatim>\<open>NULL\<close> and \<^verbatim>\<open>bufferStreamPackets\<close> all
  zero; its \<^verbatim>\<open>pollRefresh\<close> has set \<^verbatim>\<open>timeOfLastPoll\<close>.
\<close>

definition exampleDevice :: Radio where
  "exampleDevice =
     exampleHost\<lparr>isHost := False, isDevice := True,
                 currentPacketBufferStreamPacket := None, timeOfLastPoll := 1000\<rparr>"

text \<open>
  The same Device under a header that gives the array of the stream packet buffer 33 cells,
  one for each byte the detector stores (the indices 0 to 32).
\<close>

definition exampleStreamDevice :: Radio where
  "exampleStreamDevice =
     exampleDevice\<lparr>streamPacketBuffer :=
       (streamPacketBuffer exampleDevice)\<lparr>streamData := replicate 33 0x00\<rparr>\<rparr>"

section \<open>Properties of the codec\<close>

subsection \<open>Bits of the masks\<close>

lemma bit_07_int: "bit (0x07::int) n = (n < 3)"
proof -
  have h: "(0x07::int) = mask 3" by (simp add: mask_eq_exp_minus_1)
  show ?thesis unfolding h by (auto simp: bit_simps)
qed

lemma bit_0F_int: "bit (0x0F::int) n = (n < 4)"
proof -
  have h: "(0x0F::int) = mask 4" by (simp add: mask_eq_exp_minus_1)
  show ?thesis unfolding h by (auto simp: bit_simps)
qed

lemma bit_78_int: "bit (0x78::int) n = (3 \<le> n \<and> n < 7)"
proof -
  have h: "(0x78::int) = push_bit 3 (mask 4)" by (simp add: mask_eq_exp_minus_1)
  show ?thesis unfolding h by (auto simp: bit_simps)
qed

lemma bit_80_int: "bit (0x80::int) n = (n = 7)"
proof -
  have "bit (2 ^ 7 :: int) n = (n = 7)" by (subst bit_exp_iff) auto
  thus ?thesis by simp
qed

lemma bit_C0_int: "bit (0xC0::int) n = (n = 6 \<or> n = 7)"
proof -
  have h: "(0xC0::int) = push_bit 6 (mask 2)" by (simp add: mask_eq_exp_minus_1)
  show ?thesis unfolding h by (auto simp: bit_simps)
qed

lemma bit_F0_int: "bit (0xF0::int) n = (4 \<le> n \<and> n < 8)"
proof -
  have h: "(0xF0::int) = push_bit 4 (mask 4)" by (simp add: mask_eq_exp_minus_1)
  show ?thesis unfolding h by (auto simp: bit_simps)
qed

lemmas bit_consts = bit_07_int bit_78_int bit_80_int bit_C0_int bit_0F_int bit_F0_int

text \<open>On an unsigned char, \<^verbatim>\<open>byteId > 0x7F\<close> tests bit 7.\<close>

lemma gt_7F_iff_bit7: "(0x7F < (w::byte)) = bit w 7"
proof -
  have lt: "unat w < 256" using unsigned_less[of w, where 'a=nat] by simp
  have a: "(0x7F < w) = (127 < unat w)" by (simp add: word_less_nat_alt)
  have b1: "bit w 7 = bit (unat w) 7" by (simp add: bit_unsigned_iff)
  have b2: "bit (unat w) 7 = odd (unat w div 2 ^ 7)" by (simp only: bit_nat_def)
  have b: "bit w 7 = odd (unat w div 128)" using b1 b2 by simp
  show ?thesis
  proof (cases "unat w < 128")
    case True
    hence "unat w div 128 = 0" by simp
    thus ?thesis using True a b by simp
  next
    case False
    hence "unat w div 128 = 1" using lt by (intro div_nat_eqI) simp_all
    thus ?thesis using False a b by simp
  qed
qed

subsection \<open>The header byte\<close>

text \<open>The byte \<^verbatim>\<open>byteIdMake\<close> builds before it adds the check sum.\<close>

lemma header_low3:
  "((if b then (0::byte) OR 0x80 else 0) OR word_of_int (push_bit 3 (n AND 0x0F))) AND 0x07 = 0"
  by (rule bit_word_eqI) (auto simp: bit_simps bit_consts)

lemma checksum_low3:
  "((a::byte) OR ucast ((x::32 word) AND 0x07)) AND 0x07 = (a AND 0x07) OR ucast (x AND 0x07)"
  by (rule bit_word_eqI) (auto simp: bit_simps bit_consts)

lemma header_packetNumber:
  assumes "0 \<le> pn" "pn \<le> 15"
  shows "byteIdGetPacketNumber
           (((if b then (0::byte) OR 0x80 else 0) OR word_of_int (push_bit 3 (pn AND 0x0F)))
              OR ucast ((x::32 word) AND 0x07)) = pn"
proof -
  have "drop_bit 3 ((((if b then (0::byte) OR 0x80 else 0) OR word_of_int (push_bit 3 (pn AND 0x0F)))
                      OR ucast (x AND 0x07)) AND 0x78)
        = (word_of_int (pn AND 0x0F) :: byte)"
    by (rule bit_word_eqI) (auto simp: bit_simps bit_consts)
  moreover have "pn AND 0x0F = pn"
  proof -
    have "pn AND mask 4 = pn"
      using assms by (simp add: take_bit_eq_mask[symmetric] take_bit_int_eq_self)
    thus ?thesis by (simp add: mask_eq_exp_minus_1)
  qed
  moreover have "uint (word_of_int pn :: byte) = pn"
    using assms by (simp add: uint_word_of_int)
  ultimately show ?thesis by (simp add: byteIdGetPacketNumber_def)
qed

lemma header_isStream:
  "byteIdGetIsStream
     (((if b then (0::byte) OR 0x80 else 0) OR word_of_int (push_bit 3 (pn AND 0x0F)))
        OR ucast ((x::32 word) AND 0x07)) = b"
  unfolding byteIdGetIsStream_def gt_7F_iff_bit7 by (auto simp: bit_simps bit_consts)


subsection \<open>The check sum loop\<close>

text \<open>With a length of at least 1 that stays inside the array the loop adds up the bytes.\<close>

lemma checkSumMake_loop_sum:
  "0 \<le> count \<Longrightarrow> 1 \<le> len \<Longrightarrow> count + len \<le> int (length dat) \<Longrightarrow>
   checkSumMake_loop dat count len sm =
     Some (sm + sum_list (map ucast (take (nat len) (drop (nat count) dat))))"
proof (induction dat count len sm rule: checkSumMake_loop.induct)
  case (1 dat count len sm)
  from "1.prems" have inb: "nat count < length dat" by linarith
  hence r: "rd dat count = Some (dat ! nat count)" using "1.prems" by (simp add: rd_def)
  have dr: "drop (nat count) dat = dat ! nat count # drop (nat (count + 1)) dat"
    using inb "1.prems" by (simp add: Cons_nth_drop_Suc nat_add_distrib)
  show ?case
  proof (cases "len - 1 = 0")
    case True
    hence "len = 1" by simp
    thus ?thesis using r dr by (subst checkSumMake_loop.simps) simp
  next
    case False
    hence l2: "1 \<le> len - 1" using "1.prems" by linarith
    have tk: "take (nat len) (dat ! nat count # drop (nat (count + 1)) dat)
            = dat ! nat count # take (nat (len - 1)) (drop (nat (count + 1)) dat)"
      using l2 by (cases "nat len") (auto simp: nat_diff_distrib)
    have ih: "checkSumMake_loop dat (count + 1) (len - 1) (sm + ucast (dat ! nat count)) =
       Some (sm + ucast (dat ! nat count)
             + sum_list (map ucast (take (nat (len - 1)) (drop (nat (count + 1)) dat))))"
      using "1.IH"[OF r False _ l2] "1.prems" by simp
    show ?thesis
      apply (subst checkSumMake_loop.simps)
      using r False ih dr tk by (simp add: add.assoc)
  qed
qed

text \<open>With a length of 0 or less the loop runs until it reads outside the array.\<close>

lemma checkSumMake_loop_nonpos:
  "len \<le> 0 \<Longrightarrow> checkSumMake_loop dat count len sm = None"
proof (induction dat count len sm rule: checkSumMake_loop.induct)
  case (1 dat count len sm)
  show ?case
  proof (cases "rd dat count")
    case None
    thus ?thesis by (subst checkSumMake_loop.simps) simp
  next
    case (Some c)
    have ne: "len - 1 \<noteq> 0" using "1.prems" by simp
    have "checkSumMake_loop dat (count + 1) (len - 1) (sm + ucast c) = None"
      using "1.IH"[OF Some ne] "1.prems" by simp
    thus ?thesis using Some ne by (subst checkSumMake_loop.simps) simp
  qed
qed

lemma checkSumMake_sum:
  "1 \<le> len \<Longrightarrow> len \<le> int (length dat) \<Longrightarrow>
   checkSumMake (Some dat) len
     = Some (ucast ((- sum_list (map ucast (take (nat len) dat)) :: 32 word) AND 0x07))"
  using checkSumMake_loop_sum[of 0 len dat 0] by (simp add: checkSumMake_def)

subsection \<open>The check sum\<close>

text \<open>
  A length of 0 does not give 0: \<^verbatim>\<open>checkSumMake\<close> on a two-byte array with length 0 reads
  both bytes and then the cell behind them.
\<close>

theorem checkSumMake_zero_length_counterexample:
  "checkSumMake (Some [0x01, 0x02]) 0 \<noteq> Some 0x00"
  by (simp add: checkSumMake_def checkSumMake_loop.simps rd_def)

text \<open>
  C8 (as amended): \<^verbatim>\<open>checkSumMake\<close> returns 0 for a null data pointer, whatever the length;
  for a length of at least 1 that does not exceed the array it returns the low 3 bits of the
  negated unsigned sum of the first \<open>len\<close> bytes.
\<close>

theorem checkSumMake_result:
  "checkSumMake None len = Some 0x00 \<and>
   (1 \<le> len \<and> len \<le> int (length dat) \<longrightarrow>
      checkSumMake (Some dat) len
        = Some (ucast ((- sum_list (map ucast (take (nat len) dat)) :: 32 word) AND 0x07)))"
  using checkSumMake_sum[of len dat] by (simp add: checkSumMake_def)

theorem checkSumMake_result_witness:
  "checkSumMake None 3 = Some 0x00 \<and> checkSumMake (Some [0x01, 0x02, 0x03]) 3 = Some 0x02"
  using checkSumMake_result[of 3 "[0x01, 0x02, 0x03]"] by simp

subsection \<open>The codec round trip\<close>

text \<open>
  C2: for every byte sequence of length 1 to 31, every flag \<open>b\<close> and every packet number
  \<open>n\<close>, \<^verbatim>\<open>byteIdMake\<close> returns a header, and \<^verbatim>\<open>checkSumsAreEqual\<close> accepts the packet made
  of that header and the bytes, of length \<open>len + 1\<close>.
\<close>

theorem byteIdMake_checkSumsAreEqual:
  assumes "1 \<le> len" and "len \<le> 31" and "len \<le> int (length dat)"
  shows "\<exists>byteId. byteIdMake b n (Some dat) len = Some byteId \<and>
                  checkSumsAreEqual (byteId # dat) (len + 1) = Some True"
proof -
  let ?cs = "ucast ((- sum_list (map ucast (take (nat len) dat)) :: 32 word) AND 0x07) :: byte"
  let ?hd = "(if b then (0::byte) OR 0x80 else 0) OR word_of_int (push_bit 3 (n AND 0x0F))"
  have cs: "checkSumMake (Some dat) len = Some ?cs"
    using assms by (rule_tac checkSumMake_sum) auto
  have mk: "byteIdMake b n (Some dat) len = Some (?hd OR ?cs)"
    using cs by (simp add: byteIdMake_def)
  have "byteIdGetCheckSum (?hd OR ?cs) = ?cs"
    unfolding byteIdGetCheckSum_def checksum_low3 header_low3 by simp
  hence "checkSumsAreEqual ((?hd OR ?cs) # dat) (len + 1) = Some True"
    using cs by (simp add: checkSumsAreEqual_def rd_def)
  with mk show ?thesis by blast
qed

theorem byteIdMake_checkSumsAreEqual_witness:
  "byteIdMake False 5 (Some [0x01, 0x02, 0x03]) 3 = Some 0x2A \<and>
   checkSumsAreEqual [0x2A, 0x01, 0x02, 0x03] 4 = Some True"
proof -
  have mk: "byteIdMake False 5 (Some [0x01, 0x02, 0x03]) 3 = Some 0x2A"
    by (simp add: byteIdMake_def checkSumMake_def checkSumMake_loop.simps rd_def)
  from byteIdMake_checkSumsAreEqual[of 3 "[0x01, 0x02, 0x03]" False 5]
  show ?thesis using mk by simp
qed

text \<open>
  C7: for every packet number from 0 to 15 and every payload, \<^verbatim>\<open>byteIdGetPacketNumber\<close>
  gives back the packet number of a header made with the stream flag off; and
  \<^verbatim>\<open>byteIdGetIsStream\<close> gives back the stream flag, whatever the packet number \<open>n\<close> and the
  payload (so whatever the check sum) are.
\<close>

theorem byteId_fields_roundtrip:
  assumes "1 \<le> len" and "len \<le> int (length dat)"
  shows "(0 \<le> packetNumber \<and> packetNumber \<le> 15 \<longrightarrow>
            (\<exists>byteId. byteIdMake False packetNumber (Some dat) len = Some byteId \<and>
                       byteIdGetPacketNumber byteId = packetNumber)) \<and>
         (\<exists>byteId. byteIdMake isStream n (Some dat) len = Some byteId \<and>
                    byteIdGetIsStream byteId = isStream)"
proof -
  let ?s = "sum_list (map ucast (take (nat len) dat)) :: 32 word"
  have cs: "checkSumMake (Some dat) len = Some (ucast ((- ?s) AND 0x07))"
    using assms by (rule checkSumMake_sum)
  have a: "0 \<le> packetNumber \<and> packetNumber \<le> 15 \<longrightarrow>
            (\<exists>byteId. byteIdMake False packetNumber (Some dat) len = Some byteId \<and>
                       byteIdGetPacketNumber byteId = packetNumber)"
    using cs header_packetNumber[of packetNumber False "- ?s"] by (simp add: byteIdMake_def)
  have b: "\<exists>byteId. byteIdMake isStream n (Some dat) len = Some byteId \<and>
                    byteIdGetIsStream byteId = isStream"
    using cs header_isStream[of isStream n "- ?s"]
    by (cases isStream) (simp_all add: byteIdMake_def)
  from a b show ?thesis by blast
qed

theorem byteId_fields_roundtrip_witness:
  "byteIdMake False 5 (Some [0x01, 0x02, 0x03]) 3 = Some 0x2A \<and>
   byteIdGetPacketNumber 0x2A = 5 \<and>
   byteIdMake True 9 (Some [0x01, 0x02, 0x03]) 3 = Some 0xCA \<and>
   byteIdGetIsStream 0xCA = True"
proof -
  have mk: "byteIdMake False 5 (Some [0x01, 0x02, 0x03]) 3 = Some 0x2A"
           "byteIdMake True 9 (Some [0x01, 0x02, 0x03]) 3 = Some 0xCA"
    by (simp_all add: byteIdMake_def checkSumMake_def checkSumMake_loop.simps rd_def)
  from byteId_fields_roundtrip[of 3 "[0x01, 0x02, 0x03]" 5 True 9]
  show ?thesis using mk by simp
qed

section \<open>A flipped payload bit and the check sum\<close>

text \<open>
  The check sum is the low three bits of the negated sum, so it follows the sum modulo 8.
\<close>

lemma and_07_take_bit: "(w::'a::len word) AND 0x07 = take_bit 3 w"
proof -
  have "(0x07::'a word) = mask 3" by (simp add: mask_eq_exp_minus_1)
  thus ?thesis by (simp only: take_bit_eq_mask)
qed

lemma uint_checksum_byte: "uint (ucast ((w::32 word) AND 0x07) :: byte) = uint w mod 8"
proof -
  have "uint (take_bit 3 w) = take_bit 3 (uint w)" by (rule unsigned_take_bit_eq)
  hence a: "uint (take_bit 3 w) = uint w mod 8" by (simp add: take_bit_eq_mod)
  have "0 \<le> uint w mod 8" "uint w mod 8 < 8" by simp_all
  hence b: "uint w mod 8 mod 256 = uint w mod 8" by (intro mod_pos_pos_trivial) simp_all
  have "uint (ucast (take_bit 3 w) :: byte) = take_bit LENGTH(8) (uint (take_bit 3 w))"
    by (rule unsigned_ucast_eq)
  also have "\<dots> = (uint w mod 8) mod 2 ^ LENGTH(8)" unfolding a by (rule take_bit_eq_mod)
  also have "\<dots> = uint w mod 8 mod 256" by simp
  finally show ?thesis using b by (simp only: and_07_take_bit)
qed

lemma uint_add_mod8: "uint ((a::32 word) + b) mod 8 = (uint a + uint b) mod 8"
proof -
  have "uint (a + b) = (uint a + uint b) mod 2 ^ 32" by (simp add: uint_word_ariths)
  moreover have "(8::int) dvd 2 ^ 32" by simp
  ultimately show ?thesis by (simp only: mod_mod_cancel)
qed

lemma uint_minus_mod8: "uint (- (a::32 word)) mod 8 = (- uint a) mod 8"
proof -
  have "uint (- a) = (- uint a) mod 2 ^ 32" by (simp add: uint_word_ariths)
  moreover have "(8::int) dvd 2 ^ 32" by simp
  ultimately show ?thesis by (simp only: mod_mod_cancel)
qed

lemma uint_ucast_byte: "uint (ucast (x::byte) :: 32 word) = uint x"
  by (rule uint_up_ucast) (simp add: is_up)

lemma int_mod8_cancel:
  assumes "(- ((c::int) + u)) mod 8 = (- (c + v)) mod 8"
  shows "u mod 8 = v mod 8"
proof -
  have "(0 - (- (c + u)) - c) mod 8 = (0 - (- (c + v)) - c) mod 8"
    using assms by (intro euclidean_ring_cancel_class.mod_diff_cong refl)
  thus ?thesis by simp
qed

lemma checksum_cancel:
  assumes "uint (- ((c::32 word) + u)) mod 8 = uint (- (c + v)) mod 8"
  shows "uint u mod 8 = uint v mod 8"
proof -
  have e: "(- uint (c + u)) mod 8 = (- uint (c + v)) mod 8"
    using assms by (simp only: uint_minus_mod8)
  have l: "(- uint (c + u)) mod 8 = (- (uint c + uint u)) mod 8"
    by (rule euclidean_ring_cancel_class.mod_minus_cong) (rule uint_add_mod8)
  have r: "(- uint (c + v)) mod 8 = (- (uint c + uint v)) mod 8"
    by (rule euclidean_ring_cancel_class.mod_minus_cong) (rule uint_add_mod8)
  have "(- (uint c + uint u)) mod 8 = (- (uint c + uint v)) mod 8"
    using e l r by (simp only:)
  thus ?thesis by (rule int_mod8_cancel)
qed

lemma flipped_low_bit_differs:
  assumes "j < 3"
  shows "uint (x::byte) mod 8 \<noteq> uint (x XOR push_bit j 1) mod 8"
proof
  assume "uint x mod 8 = uint (x XOR push_bit j 1) mod 8"
  hence "take_bit 3 (uint x) = take_bit 3 (uint (x XOR push_bit j 1))"
    by (simp add: take_bit_eq_mod)
  hence "bit (take_bit 3 (uint x)) j = bit (take_bit 3 (uint (x XOR push_bit j 1))) j"
    by simp
  thus False using assms by (auto simp: bit_simps)
qed

lemma sum_list_update_word:
  assumes "k < length xs"
  shows "sum_list (map ucast (xs[k := y])) =
         (sum_list (map ucast (take k xs)) + sum_list (map ucast (drop (Suc k) xs)))
         + (ucast (y::byte) :: 32 word)"
proof -
  have "xs[k := y] = take k xs @ y # drop (Suc k) xs"
    using assms by (rule upd_conv_take_nth_drop)
  thus ?thesis by (simp add: ac_simps)
qed

lemma sum_list_split_word:
  assumes "k < length xs"
  shows "sum_list (map ucast xs) =
         (sum_list (map ucast (take k xs)) + sum_list (map ucast (drop (Suc k) xs)))
         + (ucast (xs ! k :: byte) :: 32 word)"
  using sum_list_update_word[OF assms, of "xs ! k"] by simp

lemma checkSumMake_flip:
  assumes len: "1 \<le> len" "len \<le> int (length dat)" and k: "k < nat len" and j: "j < 3"
  shows "checkSumMake (Some (dat[k := (dat ! k) XOR push_bit j 1])) len
         \<noteq> checkSumMake (Some dat) len"
proof
  let ?y = "(dat ! k) XOR push_bit j 1"
  let ?xs = "take (nat len) dat"
  let ?c = "sum_list (map ucast (take k ?xs)) + sum_list (map ucast (drop (Suc k) ?xs)) :: 32 word"
  assume eq: "checkSumMake (Some (dat[k := ?y])) len = checkSumMake (Some dat) len"
  have kl: "k < length ?xs" using len k by simp
  have nk: "?xs ! k = dat ! k" using k by simp
  have tk: "take (nat len) (dat[k := ?y]) = ?xs[k := ?y]" by (simp add: take_update_swap)
  have s1: "sum_list (map ucast ?xs) = ?c + ucast (dat ! k)"
    using sum_list_split_word[OF kl] nk by simp
  have s2: "sum_list (map ucast (take (nat len) (dat[k := ?y]))) = ?c + ucast ?y"
    unfolding tk using sum_list_update_word[OF kl, of ?y] by simp
  have c1: "checkSumMake (Some dat) len = Some (ucast ((- (?c + ucast (dat ! k))) AND 0x07))"
    using checkSumMake_sum[OF len] by (simp only: s1)
  have len': "len \<le> int (length (dat[k := ?y]))" using len by simp
  have c2: "checkSumMake (Some (dat[k := ?y])) len = Some (ucast ((- (?c + ucast ?y)) AND 0x07))"
    using checkSumMake_sum[OF len(1) len'] by (simp only: s2)
  from eq c1 c2
  have "(ucast ((- (?c + ucast ?y)) AND 0x07) :: byte) = ucast ((- (?c + ucast (dat ! k))) AND 0x07)"
    by simp
  hence "uint (ucast ((- (?c + ucast ?y)) AND 0x07) :: byte)
         = uint (ucast ((- (?c + ucast (dat ! k))) AND 0x07) :: byte)"
    by (rule arg_cong)
  hence "uint (- (?c + ucast ?y)) mod 8 = uint (- (?c + ucast (dat ! k))) mod 8"
    by (simp only: uint_checksum_byte)
  hence "uint (ucast ?y :: 32 word) mod 8 = uint (ucast (dat ! k) :: 32 word) mod 8"
    by (rule checksum_cancel)
  hence "uint ?y mod 8 = uint (dat ! k) mod 8" by (simp only: uint_ucast_byte)
  thus False using flipped_low_bit_differs[OF j, of "dat ! k"] by simp
qed

text \<open>
  Flipping one of the three low bits of one payload byte of a packet whose check sums are
  equal makes them differ.
\<close>

lemma byte_and_FF: "(x::byte) AND 0xFF = x"
proof -
  have "(0xFF::byte) = - 1" by simp
  thus ?thesis by (simp only: and.right_neutral word_bw_comms bit.conj_one_right)
qed

lemma checkSumsAreEqual_flip:
  assumes len: "1 < len" "len \<le> int (length dat)"
    and ok: "checkSumsAreEqual dat len = Some True"
    and i: "1 \<le> i" "i < nat len" and j: "j < 3"
  shows "checkSumsAreEqual (dat[i := (dat ! i) XOR push_bit j 1]) len = Some False"
proof -
  let ?y = "(dat ! i) XOR push_bit j 1"
  have r0: "rd dat 0 = Some (dat ! 0)" "rd (dat[i := ?y]) 0 = Some (dat ! 0)"
    using len i by (auto simp: rd_def)
  have dr: "drop 1 (dat[i := ?y]) = (drop 1 dat)[i - 1 := (drop 1 dat ! (i - 1)) XOR push_bit j 1]"
    using i len by (simp add: drop_update_swap)
  have l1: "1 \<le> len - 1" "len - 1 \<le> int (length (drop 1 dat))" using len by simp_all
  have k: "i - 1 < nat (len - 1)" using i len by linarith
  obtain cs where cs: "checkSumMake (Some (drop 1 dat)) (len - 1) = Some cs"
    using checkSumMake_sum[OF l1] by simp
  have l1': "len - 1 \<le> int (length (drop 1 (dat[i := ?y])))" using len by simp
  obtain cs' where cs': "checkSumMake (Some (drop 1 (dat[i := ?y]))) (len - 1) = Some cs'"
    using checkSumMake_sum[OF l1(1) l1'] by simp
  have ne: "cs' \<noteq> cs"
    using checkSumMake_flip[OF l1 k j] cs cs' unfolding dr by simp
  have "byteIdGetCheckSum (dat ! 0) = cs"
    using ok r0 cs by (simp add: checkSumsAreEqual_def)
  thus ?thesis using r0 cs' ne by (auto simp: checkSumsAreEqual_def)
qed

section \<open>Packets the receive handler rejects\<close>

text \<open>A packet whose check sums differ is answered with the bad check sum code.\<close>

lemma onReceive_bad_check_sum:
  assumes len: "1 < len"
    and b0: "rd dat 0 = Some byteId"
    and sums: "checkSumsAreEqual dat len = Some False"
  shows "\<exists>s'. RFduinoGZLL_onReceive cfg device rssi dat len s = Some s' \<and>
              previousPacketNumber s' = previousPacketNumber s \<and>
              bufferRadio s' = bufferRadio s \<and>
              bufferPositionWriteRadio s' = bufferPositionWriteRadio s \<and>
              out s' = out s
                @ (if verbosePrintouts s
                   then [SerialPrint ''R<-'', SerialPrintlnNum (byteIdGetPacketNumber byteId),
                         SerialPrintln ''S->B'']
                   else [])
                @ [if isHost s then SendToDevice device [ORPM_PACKET_BAD_CHECK_SUM cfg]
                   else SendToHost [ORPM_PACKET_BAD_CHECK_SUM cfg]]"
  using assms
  by (simp add: RFduinoGZLL_onReceive_def onReceive_packet_def onReceive_verify_def
      verbosePrintln_def emit_def sendToDevice_def sendToHost_def pollRefresh_def byte_and_FF Let_def)

text \<open>
  One flipped bit is not always found: bit 3 of the payload byte of the packet
  \<open>[0x00, 0x00]\<close> flipped gives \<open>[0x00, 0x08]\<close>, whose sum is 8 and whose check sum is
  0 as before. The Host stores the byte in \<^verbatim>\<open>bufferRadio\<close>, moves
  \<^verbatim>\<open>bufferPositionWriteRadio\<close> to 1 and sends nothing back; with \<^verbatim>\<open>verbosePrintouts\<close>
  set it prints the packet number and \<^verbatim>\<open>S->N\<close>.
\<close>

theorem onReceive_flipped_high_bit_counterexample:
  "checkSumsAreEqual [0x00, 0x00] 2 = Some True \<and>
   [0x00, 0x00 :: byte][1 := ([0x00, 0x00] ! 1) XOR push_bit 3 1] = [0x00, 0x08] \<and>
   RFduinoGZLL_onReceive exampleConfig 0 0 [0x00, 0x08] 2 exampleHost
     = Some (exampleHost
              \<lparr>lastTimeHostHeardFromDevice := 1000,
               bufferRadio := (replicate 64 0x00)[0 := 0x08],
               bufferPositionWriteRadio := 1,
               isTheHostsRadioBufferFilledWithAllThePacketsFromTheDevice := True,
               isTheDevicesRadioBufferFilledWithAllThePacketsFromTheHost := True,
               out := [SerialPrint ''R<-'', SerialPrintlnNum 0, SerialPrintln ''S->N'']\<rparr>)"
  by (simp add: checkSumsAreEqual_def checkSumMake_def checkSumMake_loop.simps rd_def wr_def
      byteIdGetCheckSum_def byteIdGetPacketNumber_def byteIdGetIsStream_def
      RFduinoGZLL_onReceive_def onReceive_packet_def onReceive_verify_def
      onReceive_moreToSend_def onReceive_store_loop.simps
      verbosePrintln_def emit_def exampleHost_def exampleConfig_def Let_def)

text \<open>
  C4 (as amended): for every received packet of length greater than 1 in which exactly one
  of the three low bits (bits 0 to 2) of one payload byte has been flipped, relative to a
  packet whose check sums are equal, the receive handler replies with the bad check sum
  code (a Host to the device, a Device to the host) and changes neither
  \<^verbatim>\<open>previousPacketNumber\<close> nor \<^verbatim>\<open>bufferRadio\<close> and \<^verbatim>\<open>bufferPositionWriteRadio\<close>.
\<close>

theorem onReceive_flipped_low_bit:
  assumes len: "1 < len" "len \<le> int (length dat)"
    and ok: "checkSumsAreEqual dat len = Some True"
    and i: "1 \<le> i" "i < nat len" and j: "j < 3"
  shows "\<exists>s'. RFduinoGZLL_onReceive cfg device rssi (dat[i := (dat ! i) XOR push_bit j 1]) len s
                = Some s' \<and>
              previousPacketNumber s' = previousPacketNumber s \<and>
              bufferRadio s' = bufferRadio s \<and>
              bufferPositionWriteRadio s' = bufferPositionWriteRadio s \<and>
              out s' = out s
                @ (if verbosePrintouts s
                   then [SerialPrint ''R<-'', SerialPrintlnNum (byteIdGetPacketNumber (dat ! 0)),
                         SerialPrintln ''S->B'']
                   else [])
                @ [if isHost s then SendToDevice device [ORPM_PACKET_BAD_CHECK_SUM cfg]
                   else SendToHost [ORPM_PACKET_BAD_CHECK_SUM cfg]]"
proof -
  have r0: "rd (dat[i := (dat ! i) XOR push_bit j 1]) 0 = Some (dat ! 0)"
    using len i by (auto simp: rd_def)
  show ?thesis
    by (rule onReceive_bad_check_sum[OF len(1) r0 checkSumsAreEqual_flip[OF len ok i j]])
qed

theorem onReceive_flipped_low_bit_witness:
  "checkSumsAreEqual [0x0F, 0x01] 2 = Some True \<and>
   (\<exists>s'. RFduinoGZLL_onReceive exampleConfig 0 0 [0x0F, 0x03] 2
            (exampleHost\<lparr>previousPacketNumber := 2\<rparr>) = Some s' \<and>
         previousPacketNumber s' = 2 \<and>
         bufferRadio s' = bufferRadio exampleHost \<and>
         bufferPositionWriteRadio s' = 0 \<and>
         out s' = [SerialPrint ''R<-'', SerialPrintlnNum 1, SerialPrintln ''S->B'',
                   SendToDevice 0 [0x01]])"
proof -
  have ok: "checkSumsAreEqual [0x0F, 0x01] 2 = Some True"
    by (simp add: checkSumsAreEqual_def checkSumMake_def checkSumMake_loop.simps rd_def
        byteIdGetCheckSum_def)
  have "(1::int) < 2" "(2::int) \<le> int (length [0x0F, 0x01 :: byte])" "(1::nat) \<le> 1"
    "(1::nat) < nat 2" "(1::nat) < 3" by simp_all
  from onReceive_flipped_low_bit[OF this(1,2) ok this(3,4,5),
      of exampleConfig 0 0 "exampleHost\<lparr>previousPacketNumber := 2\<rparr>"]
  show ?thesis using ok by (simp add: exampleHost_def exampleConfig_def byteIdGetPacketNumber_def)
qed

text \<open>
  C5: for every received packet of length greater than 1 whose check sums are equal and
  whose packet number is neither 0 with \<^verbatim>\<open>previousPacketNumber\<close> 0, nor greater than 0
  with \<^verbatim>\<open>previousPacketNumber\<close> 0, nor one less than \<^verbatim>\<open>previousPacketNumber\<close>, the receive
  handler stores nothing of the packet, sets \<^verbatim>\<open>bufferPositionWriteRadio\<close> and
  \<^verbatim>\<open>previousPacketNumber\<close> to 0 and replies with the packet missed code.
\<close>

theorem onReceive_missed_packet:
  assumes len: "1 < len"
    and b0: "rd dat 0 = Some byteId"
    and sums: "checkSumsAreEqual dat len = Some True"
    and single: "\<not> (byteIdGetPacketNumber byteId = 0 \<and> previousPacketNumber s = 0)"
    and fresh: "\<not> (byteIdGetPacketNumber byteId > 0 \<and> previousPacketNumber s = 0)"
    and nxt: "previousPacketNumber s - byteIdGetPacketNumber byteId \<noteq> 1"
  shows "\<exists>s'. RFduinoGZLL_onReceive cfg device rssi dat len s = Some s' \<and>
              bufferPositionWriteRadio s' = 0 \<and>
              previousPacketNumber s' = 0 \<and>
              bufferRadio s' = bufferRadio s \<and>
              bufferStreamPackets s' = bufferStreamPackets s \<and>
              bufferSerial s' = bufferSerial s \<and>
              out s' = out s
                @ (if verbosePrintouts s
                   then [SerialPrint ''R<-'', SerialPrintlnNum (byteIdGetPacketNumber byteId),
                         SerialPrintln ''S->M'']
                   else [])
                @ [if isHost s then SendToDevice device [ORPM_PACKET_MISSED cfg]
                   else SendToHost [ORPM_PACKET_MISSED cfg]]"
proof -
  have "0 \<le> byteIdGetPacketNumber byteId" by (simp add: byteIdGetPacketNumber_def)
  hence nz: "previousPacketNumber s \<noteq> 0" using single fresh by linarith
  show ?thesis
    using len b0 sums nz nxt
    by (simp add: RFduinoGZLL_onReceive_def onReceive_packet_def onReceive_verify_def
      verbosePrintln_def emit_def sendToDevice_def sendToHost_def pollRefresh_def byte_and_FF
      Let_def)
qed

theorem onReceive_missed_packet_witness:
  "\<exists>s'. RFduinoGZLL_onReceive exampleConfig 0 0 [0x0F, 0x01] 2
           (exampleDevice\<lparr>previousPacketNumber := 3, bufferPositionWriteRadio := 31\<rparr>) = Some s' \<and>
        bufferPositionWriteRadio s' = 0 \<and>
        previousPacketNumber s' = 0 \<and>
        out s' = [SerialPrint ''R<-'', SerialPrintlnNum 1, SerialPrintln ''S->M'',
                  SendToHost [0x02]]"
proof -
  have ok: "checkSumsAreEqual [0x0F, 0x01] 2 = Some True"
    by (simp add: checkSumsAreEqual_def checkSumMake_def checkSumMake_loop.simps rd_def
        byteIdGetCheckSum_def)
  have pn: "byteIdGetPacketNumber 0x0F = 1" by (simp add: byteIdGetPacketNumber_def)
  have r0: "rd [0x0F, 0x01 :: byte] 0 = Some 0x0F" by (simp add: rd_def)
  let ?s = "exampleDevice\<lparr>previousPacketNumber := 3, bufferPositionWriteRadio := 31\<rparr>"
  have h: "\<not> (byteIdGetPacketNumber 0x0F = 0 \<and> previousPacketNumber ?s = 0)"
    "\<not> (byteIdGetPacketNumber 0x0F > 0 \<and> previousPacketNumber ?s = 0)"
    "previousPacketNumber ?s - byteIdGetPacketNumber 0x0F \<noteq> 1"
    using pn by simp_all
  have l: "(1::int) < 2" by simp
  from onReceive_missed_packet[OF l r0 ok h, of exampleConfig 0 0]
  obtain s' where r: "RFduinoGZLL_onReceive exampleConfig 0 0 [0x0F, 0x01] 2 ?s = Some s'"
      "bufferPositionWriteRadio s' = 0" "previousPacketNumber s' = 0"
    and o: "out s' = out ?s
                @ (if verbosePrintouts ?s
                   then [SerialPrint ''R<-'', SerialPrintlnNum (byteIdGetPacketNumber 0x0F),
                         SerialPrintln ''S->M'']
                   else [])
                @ [if isHost ?s then SendToDevice 0 [ORPM_PACKET_MISSED exampleConfig]
                   else SendToHost [ORPM_PACKET_MISSED exampleConfig]]"
    by blast
  have "out s' = [SerialPrint ''R<-'', SerialPrintlnNum 1, SerialPrintln ''S->M'',
                  SendToHost [0x02]]"
    using o pn by (simp add: exampleDevice_def exampleHost_def exampleConfig_def)
  with r show ?thesis by blast
qed

section \<open>Serial ingestion into a clean buffer\<close>

subsection \<open>The detector leaves the serial buffer alone\<close>

lemma processChar_frame:
  assumes "processCharForStreamPacket cfg b s = Some s'"
  shows "bufferSerial s' = bufferSerial s \<and> currentPacketBufferSerial s' = currentPacketBufferSerial s \<and>
         isDevice s' = isDevice s \<and> isHost s' = isHost s \<and> out s' = out s \<and>
         verbosePrintouts s' = verbosePrintouts s \<and> millis s' = millis s \<and>
         previousPacketNumber s' = previousPacketNumber s"
  using assms
  by (auto simp: processCharForStreamPacket_def bufferResetStreamPacketBuffer_def Let_def
           split: if_splits bind_splits)

lemma processChar_ready:
  assumes "detectorReady s"
  shows "\<exists>s'. processCharForStreamPacket cfg b s = Some s' \<and> detectorReady s'"
  using assms
  by (auto simp: processCharForStreamPacket_def bufferResetStreamPacketBuffer_def Let_def
        detectorReady_def wr_def OPENBCI_MAX_PACKET_SIZE_BYTES_def)

subsection \<open>One turn of the loop\<close>

lemma nextPacket_here:
  assumes "currentPacketBufferSerial s = Some c"
    and "rd (packetBuffer (bufferSerial s)) c = Some p"
    and "positionWrite p < 32"
  shows "bufferSerialFetch_nextPacket cfg s = Some s"
  using assms by (simp add: bufferSerialFetch_nextPacket_def OPENBCI_MAX_PACKET_SIZE_BYTES_def)

lemma nextPacket_next:
  assumes "currentPacketBufferSerial s = Some c"
    and "rd (packetBuffer (bufferSerial s)) c = Some p"
    and "32 \<le> positionWrite p"
    and "numberOfPacketsToSend (bufferSerial s) + 1 < OPENBCI_MAX_NUMBER_OF_BUFFERS cfg"
  shows "bufferSerialFetch_nextPacket cfg s =
           Some (s\<lparr>bufferSerial := (bufferSerial s)
                     \<lparr>numberOfPacketsToSend := numberOfPacketsToSend (bufferSerial s) + 1\<rparr>,
                   currentPacketBufferSerial := Some (c + 1)\<rparr>)"
  using assms
  by (simp add: bufferSerialFetch_nextPacket_def OPENBCI_MAX_PACKET_SIZE_BYTES_def Let_def)

text \<open>Storing a byte in the packet at the cursor, and the rest of the turn.\<close>

lemma store_rest:
  assumes cur: "currentPacketBufferSerial s = Some c"
    and p: "rd (packetBuffer (bufferSerial s)) c = Some p"
    and pw: "0 \<le> positionWrite p" "positionWrite p < int (length (data p))"
    and det: "isDevice s \<longrightarrow> detectorReady s"
  shows "\<exists>s'. (do { s \<leftarrow> bufferSerialFetch_store cfg b s;
                    let s = (if isDevice s then pollRefresh s else s);
                    Some (s\<lparr>lastTimeNewSerialDataWasAvailable := millis s\<rparr>) }) = Some s' \<and>
              bufferSerial s' = (bufferSerial s)
                \<lparr>packetBuffer := (packetBuffer (bufferSerial s))
                   [nat c := p\<lparr>data := (data p)[nat (positionWrite p) := b],
                               positionWrite := positionWrite p + 1\<rparr>]\<rparr> \<and>
              currentPacketBufferSerial s' = Some c \<and>
              isDevice s' = isDevice s \<and> isHost s' = isHost s \<and> out s' = out s \<and>
              (isDevice s' \<longrightarrow> detectorReady s')"
proof -
  let ?p = "p\<lparr>data := (data p)[nat (positionWrite p) := b], positionWrite := positionWrite p + 1\<rparr>"
  let ?s1 = "s\<lparr>bufferSerial := (bufferSerial s)
                \<lparr>packetBuffer := (packetBuffer (bufferSerial s))[nat c := ?p]\<rparr>\<rparr>"
  have w: "wr (data p) (positionWrite p) b = Some ((data p)[nat (positionWrite p) := b])"
    using pw by (simp add: wr_def)
  show ?thesis
  proof (cases "isDevice s")
    case False
    hence "bufferSerialFetch_store cfg b s = Some ?s1"
      using cur p w by (simp add: bufferSerialFetch_store_def Let_def)
    thus ?thesis using False cur by simp
  next
    case True
    hence "detectorReady ?s1" using det by (simp add: detectorReady_def)
    then obtain s2 where s2: "processCharForStreamPacket cfg b ?s1 = Some s2" "detectorReady s2"
      using processChar_ready by blast
    have st: "bufferSerialFetch_store cfg b s = Some s2"
      using cur p w True s2 by (simp add: bufferSerialFetch_store_def Let_def)
    from processChar_frame[OF s2(1)] s2(2) have
      fr: "bufferSerial s2 = bufferSerial ?s1" "currentPacketBufferSerial s2 = Some c"
          "isDevice s2 = isDevice s" "isHost s2 = isHost s" "out s2 = out s"
      using cur by simp_all
    show ?thesis using st fr s2(2) True by (simp add: pollRefresh_def detectorReady_def)
  qed
qed


lemma list_all_update:
  "list_all P xs \<Longrightarrow> P y \<Longrightarrow> list_all P (xs[i := y])"
  by (auto simp: list_all_iff dest: set_update_subset_insert[THEN subsetD])

lemma list_all_nth: "list_all P xs \<Longrightarrow> i < length xs \<Longrightarrow> P (xs ! i)"
  by (simp add: list_all_length)



subsection \<open>The whole pass\<close>




text \<open>Definitions that an evaluation of a pass of \<^verbatim>\<open>bufferSerialFetch\<close> unfolds.\<close>

lemma replicate_numeral: "replicate (numeral k) x = x # replicate (pred_numeral k) x"
  by (simp add: numeral_eq_Suc)

lemmas fetch_eval =
  bufferSerialFetch_def bufferSerialFetch_body_def bufferSerialFetch_nextPacket_def
  bufferSerialFetch_store_def bufferCleanSerial_def bufferCleanBuffer_def
  bufferCleanPacketBuffer_def bufferCleanPacketBuffer_loop.simps emit_def sendToHost_def
  pollRefresh_def processCharForStreamPacket_def
  rd_def wr_def OPENBCI_MAX_PACKET_SIZE_BYTES_def Let_def
  exampleConfig_def exampleHost_def exampleDevice_def exampleStreamDevice_def cleanPacket_def
  replicate_numeral

text \<open>Definitions that an evaluation of the receive handler unfolds.\<close>

lemmas handler_eval =
  RFduinoGZLL_onReceive_def onReceive_packet_def onReceive_verify_def onReceive_ack_def
  onReceive_radioCode_def onReceive_moreToSend_def onReceive_sendData_def
  onReceive_store_loop.simps theLastTimeNewSerialDataWasAvailableWasLongEnough_def
  verbosePrintln_def verbosePrintSend_def sendToDevice_def getChannelNumber_def
  checkSumsAreEqual_def checkSumMake_def checkSumMake_loop.simps byteIdMake_def
  byteIdGetCheckSum_def byteIdGetPacketNumber_def byteIdGetIsStream_def




section \<open>Serial ingestion in general\<close>

subsection \<open>Cleaning the serial buffer\<close>

lemma bufferCleanPacketBuffer_loop_props:
  "0 \<le> i \<Longrightarrow> n \<le> int (length pb) \<Longrightarrow>
   \<exists>pb'. bufferCleanPacketBuffer_loop pb i n = Some pb' \<and> length pb' = length pb \<and>
         (\<forall>j<length pb. pb' ! j = (if i \<le> int j \<and> int j < n
                                     then (pb ! j)\<lparr>positionRead := 0, positionWrite := 1\<rparr>
                                     else pb ! j))"
proof (induction pb i n rule: bufferCleanPacketBuffer_loop.induct)
  case (1 pb i n)
  show ?case
  proof (cases "i < n")
    case False
    thus ?thesis by (subst bufferCleanPacketBuffer_loop.simps) auto
  next
    case True
    hence il: "nat i < length pb" using "1.prems" by linarith
    hence r: "rd pb i = Some (pb ! nat i)" using "1.prems" by (simp add: rd_def)
    let ?pb1 = "pb[nat i := (pb ! nat i)\<lparr>positionRead := 0, positionWrite := 1\<rparr>]"
    have "0 \<le> i + 1" "n \<le> int (length ?pb1)" using "1.prems" by simp_all
    from "1.IH"[OF True r this]
    obtain pb' where l: "bufferCleanPacketBuffer_loop ?pb1 (i + 1) n = Some pb'"
      and len: "length pb' = length pb"
      and el: "\<forall>j<length pb. pb' ! j = (if i + 1 \<le> int j \<and> int j < n
                                     then (?pb1 ! j)\<lparr>positionRead := 0, positionWrite := 1\<rparr>
                                     else ?pb1 ! j)"
      by auto
    have "bufferCleanPacketBuffer_loop pb i n = Some pb'"
      using True r l by (subst bufferCleanPacketBuffer_loop.simps) simp
    moreover have "\<forall>j<length pb. pb' ! j = (if i \<le> int j \<and> int j < n
                                     then (pb ! j)\<lparr>positionRead := 0, positionWrite := 1\<rparr>
                                     else pb ! j)"
    proof (intro allI impI)
      fix j assume j: "j < length pb"
      show "pb' ! j = (if i \<le> int j \<and> int j < n
                                     then (pb ! j)\<lparr>positionRead := 0, positionWrite := 1\<rparr>
                                     else pb ! j)"
      proof (cases "j = nat i")
        case True
        thus ?thesis using el j il \<open>i < n\<close> "1.prems" by simp
      next
        case False
        hence "(i + 1 \<le> int j) = (i \<le> int j)" using "1.prems" by linarith
        thus ?thesis using el j False by simp
      qed
    qed
    ultimately show ?thesis using len by blast
  qed
qed

lemma bufferCleanSerial_all:
  assumes "int (length (packetBuffer (bufferSerial s))) = n"
  shows "\<exists>pb'. bufferCleanSerial n s
           = Some (s\<lparr>bufferSerial := \<lparr>numberOfPacketsToSend = 0, numberOfPacketsSent = 0,
                                      packetBuffer = pb'\<rparr>,
                     currentPacketBufferSerial := Some 0, previousPacketNumber := 0\<rparr>) \<and>
         length pb' = length (packetBuffer (bufferSerial s)) \<and>
         list_all (\<lambda>p. positionWrite p = 1) pb' \<and>
         map data pb' = map data (packetBuffer (bufferSerial s))"
proof -
  let ?pb = "packetBuffer (bufferSerial s)"
  from bufferCleanPacketBuffer_loop_props[of 0 n ?pb] assms
  obtain pb' where l: "bufferCleanPacketBuffer_loop ?pb 0 n = Some pb'"
    and len: "length pb' = length ?pb"
    and el: "\<forall>j<length ?pb. pb' ! j = (?pb ! j)\<lparr>positionRead := 0, positionWrite := 1\<rparr>"
    by auto
  have a: "list_all (\<lambda>p. positionWrite p = 1) pb'"
    using len el by (simp add: list_all_length)
  have d: "map data pb' = map data ?pb"
    using len el by (intro nth_equalityI) simp_all
  have "bufferCleanSerial n s
           = Some (s\<lparr>bufferSerial := \<lparr>numberOfPacketsToSend = 0, numberOfPacketsSent = 0,
                                      packetBuffer = pb'\<rparr>,
                     currentPacketBufferSerial := Some 0, previousPacketNumber := 0\<rparr>)"
    using l by (cases "bufferSerial s")
      (simp add: bufferCleanSerial_def bufferCleanBuffer_def bufferCleanPacketBuffer_def)
  thus ?thesis using len a d by blast
qed

lemma detectorState_eq [simp]:
  "detectorState t = detectorState s \<longleftrightarrow>
   streamPacketBuffer t = streamPacketBuffer s \<and>
   timeWeGot0xFXFromPic t = timeWeGot0xFXFromPic s \<and> micros t = micros s"
  by (simp add: detectorState_def)

lemma processChar_local:
  assumes "detectorState t = detectorState s"
  shows "map_option detectorState (processCharForStreamPacket cfg b t)
         = map_option detectorState (processCharForStreamPacket cfg b s)"
  using assms
  by (auto simp: processCharForStreamPacket_def bufferResetStreamPacketBuffer_def Let_def
           split: bind_splits)

lemma store_rest_detector:
  assumes cur: "currentPacketBufferSerial s = Some c"
    and p: "rd (packetBuffer (bufferSerial s)) c = Some p"
    and pw: "0 \<le> positionWrite p" "positionWrite p < int (length (data p))"
    and det: "isDevice s \<longrightarrow> detectorReady s"
    and r: "(do { s \<leftarrow> bufferSerialFetch_store cfg b s;
                    let s = (if isDevice s then pollRefresh s else s);
                    Some (s\<lparr>lastTimeNewSerialDataWasAvailable := millis s\<rparr>) }) = Some s'"
  shows "Some (detectorState s') =
           (if isDevice s then map_option detectorState (processCharForStreamPacket cfg b s)
            else Some (detectorState s))"
proof -
  let ?p = "p\<lparr>data := (data p)[nat (positionWrite p) := b], positionWrite := positionWrite p + 1\<rparr>"
  let ?s1 = "s\<lparr>bufferSerial := (bufferSerial s)
                \<lparr>packetBuffer := (packetBuffer (bufferSerial s))[nat c := ?p]\<rparr>\<rparr>"
  have w: "wr (data p) (positionWrite p) b = Some ((data p)[nat (positionWrite p) := b])"
    using pw by (simp add: wr_def)
  show ?thesis
  proof (cases "isDevice s")
    case False
    hence "bufferSerialFetch_store cfg b s = Some ?s1"
      using cur p w by (simp add: bufferSerialFetch_store_def Let_def)
    thus ?thesis using False r by auto
  next
    case True
    have loc: "map_option detectorState (processCharForStreamPacket cfg b ?s1)
         = map_option detectorState (processCharForStreamPacket cfg b s)"
      by (rule processChar_local) simp
    have st: "bufferSerialFetch_store cfg b s = processCharForStreamPacket cfg b ?s1"
      using cur p w True by (simp add: bufferSerialFetch_store_def Let_def)
    then obtain s2 where s2: "processCharForStreamPacket cfg b ?s1 = Some s2"
      using r by (cases "processCharForStreamPacket cfg b ?s1") auto
    hence "detectorState s' = detectorState s2"
      using r st by (auto simp: pollRefresh_def Let_def split: if_splits)
    thus ?thesis using True loc s2 by (metis option.simps(9))
  qed
qed

lemma nextPacket_overflow:
  assumes cur: "currentPacketBufferSerial s = Some c"
    and p: "rd (packetBuffer (bufferSerial s)) c = Some p"
    and full: "32 \<le> positionWrite p"
    and over: "OPENBCI_MAX_NUMBER_OF_BUFFERS cfg \<le> numberOfPacketsToSend (bufferSerial s) + 1"
    and len: "int (length (packetBuffer (bufferSerial s))) = OPENBCI_MAX_NUMBER_OF_BUFFERS cfg"
  shows "\<exists>pb'. bufferSerialFetch_nextPacket cfg s
           = Some (s\<lparr>bufferSerial := \<lparr>numberOfPacketsToSend = 0, numberOfPacketsSent = 0,
                                      packetBuffer = pb'\<rparr>,
                     currentPacketBufferSerial := Some 0, previousPacketNumber := 0,
                     out := out s @ overflowSignal cfg s\<rparr>) \<and>
         length pb' = length (packetBuffer (bufferSerial s)) \<and>
         list_all (\<lambda>p. positionWrite p = 1) pb' \<and>
         map data pb' = map data (packetBuffer (bufferSerial s))"
proof -
  let ?s1 = "s\<lparr>bufferSerial := (bufferSerial s)
                \<lparr>numberOfPacketsToSend := numberOfPacketsToSend (bufferSerial s) + 1\<rparr>,
              currentPacketBufferSerial := None\<rparr>"
  have "int (length (packetBuffer (bufferSerial ?s1))) = OPENBCI_MAX_NUMBER_OF_BUFFERS cfg"
    using len by simp
  from bufferCleanSerial_all[OF this]
  obtain pb' where c: "bufferCleanSerial (OPENBCI_MAX_NUMBER_OF_BUFFERS cfg) ?s1
           = Some (?s1\<lparr>bufferSerial := \<lparr>numberOfPacketsToSend = 0, numberOfPacketsSent = 0,
                                      packetBuffer = pb'\<rparr>,
                     currentPacketBufferSerial := Some 0, previousPacketNumber := 0\<rparr>)"
    and props: "length pb' = length (packetBuffer (bufferSerial s))"
         "list_all (\<lambda>p. positionWrite p = 1) pb'"
         "map data pb' = map data (packetBuffer (bufferSerial s))"
    by auto
  have "bufferSerialFetch_nextPacket cfg s
           = Some (s\<lparr>bufferSerial := \<lparr>numberOfPacketsToSend = 0, numberOfPacketsSent = 0,
                                      packetBuffer = pb'\<rparr>,
                     currentPacketBufferSerial := Some 0, previousPacketNumber := 0,
                     out := out s @ overflowSignal cfg s\<rparr>)"
    using cur p full over c
    by (simp add: bufferSerialFetch_nextPacket_def OPENBCI_MAX_PACKET_SIZE_BYTES_def Let_def
        overflowSignal_def sendToHost_def emit_def)
  thus ?thesis using props by blast
qed

subsection \<open>One byte: the buffer stays ready, the detector sees the byte\<close>

lemma drop_Suc_nth_all:
  "list_all P (drop (Suc c) xs) \<Longrightarrow> Suc c < length xs \<Longrightarrow>
   P (xs ! Suc c) \<and> list_all P (drop (Suc (Suc c)) xs)"
  by (simp add: Cons_nth_drop_Suc[symmetric])

lemma serialReady_body:
  assumes W: "serialReady cfg s" and det: "isDevice s \<longrightarrow> detectorReady s"
  shows "\<exists>s'. bufferSerialFetch_body cfg b s = Some s' \<and> serialReady cfg s' \<and>
              isDevice s' = isDevice s \<and> isHost s' = isHost s \<and>
              (isDevice s' \<longrightarrow> detectorReady s') \<and>
              Some (detectorState s') =
                (if isDevice s
                 then map_option detectorState (processCharForStreamPacket cfg b s)
                 else Some (detectorState s)) \<and>
              (0 \<le> numberOfPacketsSent (bufferSerial s) \<and>
               numberOfPacketsSent (bufferSerial s) \<le> numberOfPacketsToSend (bufferSerial s)
               \<longrightarrow> 0 \<le> numberOfPacketsSent (bufferSerial s') \<and>
                   numberOfPacketsSent (bufferSerial s') \<le> numberOfPacketsToSend (bufferSerial s'))"
proof -
  let ?N = "OPENBCI_MAX_NUMBER_OF_BUFFERS cfg"
  let ?b = "bufferSerial s"
  let ?pb = "packetBuffer ?b"
  from W obtain c where cur: "currentPacketBufferSerial s = Some c"
    by (auto simp: serialReady_def Let_def split: option.splits)
  from W cur have c0: "0 \<le> c" and cl: "c < int (length ?pb)" and len: "int (length ?pb) = ?N"
    and cts: "c \<le> numberOfPacketsToSend ?b" and tsN: "numberOfPacketsToSend ?b \<le> ?N"
    and all: "list_all (\<lambda>p. length (data p) = 32 \<and> 0 \<le> positionWrite p) ?pb"
    and rest: "list_all (\<lambda>p. positionWrite p < 32) (drop (Suc (nat c)) ?pb)"
    by (simp_all add: serialReady_def Let_def)
  let ?p = "?pb ! nat c"
  have ncl: "nat c < length ?pb" using c0 cl by linarith
  have rdc: "rd ?pb c = Some ?p" using c0 cl by (simp add: rd_def)
  have pp: "length (data ?p) = 32" "0 \<le> positionWrite ?p"
    using all ncl by (simp_all add: list_all_length)
  show ?thesis
  proof (cases "positionWrite ?p < 32")
    case True
    have np: "bufferSerialFetch_nextPacket cfg s = Some s"
      by (rule nextPacket_here[OF cur rdc True])
    have pwl: "0 \<le> positionWrite ?p" "positionWrite ?p < int (length (data ?p))"
      using pp True by simp_all
    let ?q = "?p\<lparr>data := (data ?p)[nat (positionWrite ?p) := b],
                   positionWrite := positionWrite ?p + 1\<rparr>"
    from store_rest[OF cur rdc pwl det, of cfg b]
    obtain s' where r: "(do { s \<leftarrow> bufferSerialFetch_store cfg b s;
                    let s = (if isDevice s then pollRefresh s else s);
                    Some (s\<lparr>lastTimeNewSerialDataWasAvailable := millis s\<rparr>) }) = Some s'"
      and bs: "bufferSerial s' = ?b\<lparr>packetBuffer := ?pb[nat c := ?q]\<rparr>"
      and fr: "currentPacketBufferSerial s' = Some c" "isDevice s' = isDevice s"
          "isHost s' = isHost s" "isDevice s' \<longrightarrow> detectorReady s'"
      by blast
    have sb: "Some (detectorState s') =
                (if isDevice s
                 then map_option detectorState (processCharForStreamPacket cfg b s)
                 else Some (detectorState s))"
      by (rule store_rest_detector[OF cur rdc pwl det r])
    have body: "bufferSerialFetch_body cfg b s = Some s'"
      using np r by (simp add: bufferSerialFetch_body_def)
    have "serialReady cfg s'"
      unfolding serialReady_def Let_def bs
      using fr c0 cl len cts tsN all rest pp
      by (simp add: list_all_update)
    thus ?thesis using body fr sb bs by auto
  next
    case False
    hence full: "32 \<le> positionWrite ?p" by simp
    show ?thesis
    proof (cases "numberOfPacketsToSend ?b + 1 < ?N")
      case True
      let ?s1 = "s\<lparr>bufferSerial := ?b\<lparr>numberOfPacketsToSend := numberOfPacketsToSend ?b + 1\<rparr>,
                    currentPacketBufferSerial := Some (c + 1)\<rparr>"
      have np: "bufferSerialFetch_nextPacket cfg s = Some ?s1"
        by (rule nextPacket_next[OF cur rdc full True])
      have c1l: "Suc (nat c) < length ?pb" using cts True len c0 by linarith
      have nS: "nat (c + 1) = Suc (nat c)" using c0 by linarith
      let ?p1 = "?pb ! Suc (nat c)"
      have p1: "positionWrite ?p1 < 32" "list_all (\<lambda>p. positionWrite p < 32) (drop (Suc (Suc (nat c))) ?pb)"
        using drop_Suc_nth_all[OF rest c1l] by simp_all
      have pp1: "length (data ?p1) = 32" "0 \<le> positionWrite ?p1"
        using all c1l by (simp_all add: list_all_length)
      have cur1: "currentPacketBufferSerial ?s1 = Some (c + 1)" by simp
      have rd1: "rd (packetBuffer (bufferSerial ?s1)) (c + 1) = Some ?p1"
        using c1l c0 by (simp add: rd_def nS)
      have pwl: "0 \<le> positionWrite ?p1" "positionWrite ?p1 < int (length (data ?p1))"
        using pp1 p1 by simp_all
      have det1: "isDevice ?s1 \<longrightarrow> detectorReady ?s1" using det by (simp add: detectorReady_def)
      let ?q = "?p1\<lparr>data := (data ?p1)[nat (positionWrite ?p1) := b],
                      positionWrite := positionWrite ?p1 + 1\<rparr>"
      from store_rest[OF cur1 rd1 pwl det1, of cfg b]
      obtain s' where r: "(do { s \<leftarrow> bufferSerialFetch_store cfg b ?s1;
                    let s = (if isDevice s then pollRefresh s else s);
                    Some (s\<lparr>lastTimeNewSerialDataWasAvailable := millis s\<rparr>) }) = Some s'"
        and bs: "bufferSerial s' = ?b\<lparr>numberOfPacketsToSend := numberOfPacketsToSend ?b + 1,
                                       packetBuffer := ?pb[Suc (nat c) := ?q]\<rparr>"
        and fr: "currentPacketBufferSerial s' = Some (c + 1)" "isDevice s' = isDevice s"
            "isHost s' = isHost s" "isDevice s' \<longrightarrow> detectorReady s'"
        by (auto simp: nS)
      have "Some (detectorState s') =
                (if isDevice ?s1
                 then map_option detectorState (processCharForStreamPacket cfg b ?s1)
                 else Some (detectorState ?s1))"
        by (rule store_rest_detector[OF cur1 rd1 pwl det1 r])
      moreover have "map_option detectorState (processCharForStreamPacket cfg b ?s1)
          = map_option detectorState (processCharForStreamPacket cfg b s)"
        by (rule processChar_local) simp
      ultimately have sb: "Some (detectorState s') =
                (if isDevice s
                 then map_option detectorState (processCharForStreamPacket cfg b s)
                 else Some (detectorState s))"
        by simp
      have body: "bufferSerialFetch_body cfg b s = Some s'"
        using np r by (simp add: bufferSerialFetch_body_def)
      have "serialReady cfg s'"
        unfolding serialReady_def Let_def bs
        using fr c0 len cts True all p1 pp1 c1l nS
        by (simp add: list_all_update)
      thus ?thesis using body fr sb bs by auto
    next
      case False
      hence over: "?N \<le> numberOfPacketsToSend ?b + 1" by simp
      from nextPacket_overflow[OF cur rdc full over len]
      obtain pb' where np: "bufferSerialFetch_nextPacket cfg s
           = Some (s\<lparr>bufferSerial := \<lparr>numberOfPacketsToSend = 0, numberOfPacketsSent = 0,
                                      packetBuffer = pb'\<rparr>,
                     currentPacketBufferSerial := Some 0, previousPacketNumber := 0,
                     out := out s @ overflowSignal cfg s\<rparr>)"
        and lpb: "length pb' = length ?pb"
        and ones: "list_all (\<lambda>p. positionWrite p = 1) pb'"
        and dat: "map data pb' = map data ?pb"
        by blast
      let ?s1 = "s\<lparr>bufferSerial := \<lparr>numberOfPacketsToSend = 0, numberOfPacketsSent = 0,
                                      packetBuffer = pb'\<rparr>,
                     currentPacketBufferSerial := Some 0, previousPacketNumber := 0,
                     out := out s @ overflowSignal cfg s\<rparr>"
      have l0: "0 < length pb'" using lpb ncl by linarith
      let ?p0 = "pb' ! 0"
      have d32: "list_all (\<lambda>p. length (data p) = 32) pb'"
      proof -
        have "\<forall>i<length pb'. length (data (pb' ! i)) = 32"
        proof (intro allI impI)
          fix i assume i: "i < length pb'"
          have "data (pb' ! i) = map data pb' ! i" using i by simp
          also have "\<dots> = data (?pb ! i)" using i lpb unfolding dat by simp
          finally show "length (data (pb' ! i)) = 32"
            using all i lpb by (simp add: list_all_length)
        qed
        thus ?thesis by (simp add: list_all_length)
      qed
      have pp0: "positionWrite ?p0 = 1" "length (data ?p0) = 32"
        using ones d32 l0 by (simp_all add: list_all_length)
      have cur1: "currentPacketBufferSerial ?s1 = Some 0" by simp
      have rd1: "rd (packetBuffer (bufferSerial ?s1)) 0 = Some ?p0"
        using l0 by (simp add: rd_def)
      have pwl: "0 \<le> positionWrite ?p0" "positionWrite ?p0 < int (length (data ?p0))"
        using pp0 by simp_all
      have det1: "isDevice ?s1 \<longrightarrow> detectorReady ?s1" using det by (simp add: detectorReady_def)
      let ?q = "?p0\<lparr>data := (data ?p0)[nat (positionWrite ?p0) := b],
                      positionWrite := positionWrite ?p0 + 1\<rparr>"
      from store_rest[OF cur1 rd1 pwl det1, of cfg b]
      obtain s' where r: "(do { s \<leftarrow> bufferSerialFetch_store cfg b ?s1;
                    let s = (if isDevice s then pollRefresh s else s);
                    Some (s\<lparr>lastTimeNewSerialDataWasAvailable := millis s\<rparr>) }) = Some s'"
        and bs: "bufferSerial s' = \<lparr>numberOfPacketsToSend = 0, numberOfPacketsSent = 0,
                                    packetBuffer = pb'[0 := ?q]\<rparr>"
        and fr: "currentPacketBufferSerial s' = Some 0" "isDevice s' = isDevice s"
            "isHost s' = isHost s" "isDevice s' \<longrightarrow> detectorReady s'"
        by auto
      have "Some (detectorState s') =
                (if isDevice ?s1
                 then map_option detectorState (processCharForStreamPacket cfg b ?s1)
                 else Some (detectorState ?s1))"
        by (rule store_rest_detector[OF cur1 rd1 pwl det1 r])
      moreover have "map_option detectorState (processCharForStreamPacket cfg b ?s1)
          = map_option detectorState (processCharForStreamPacket cfg b s)"
        by (rule processChar_local) simp
      ultimately have sb: "Some (detectorState s') =
                (if isDevice s
                 then map_option detectorState (processCharForStreamPacket cfg b s)
                 else Some (detectorState s))"
        by simp
      have body: "bufferSerialFetch_body cfg b s = Some s'"
        using np r by (simp add: bufferSerialFetch_body_def)
      have r32: "list_all (\<lambda>p. positionWrite p < 32) (drop (Suc 0) pb')"
        using ones by (auto simp: list_all_iff dest: in_set_dropD)
      have a32: "list_all (\<lambda>p. length (data p) = 32 \<and> 0 \<le> positionWrite p) pb'"
        using ones d32 by (auto simp: list_all_iff)
      have N0: "0 < ?N" using len ncl by linarith
      have "serialReady cfg s'"
        unfolding serialReady_def Let_def bs
        using fr len lpb l0 a32 r32 pp0 N0
        by (simp add: list_all_update)
      thus ?thesis using body fr sb bs by auto
    qed
  qed
qed

lemma processChars_local:
  "detectorState t = detectorState s \<Longrightarrow>
   map_option detectorState (processCharsForStreamPacket cfg bs t)
   = map_option detectorState (processCharsForStreamPacket cfg bs s)"
proof (induction bs arbitrary: s t)
  case Nil
  then show ?case by simp
next
  case (Cons b bs)
  from processChar_local[OF Cons.prems, of cfg b]
  have e: "map_option detectorState (processCharForStreamPacket cfg b t)
         = map_option detectorState (processCharForStreamPacket cfg b s)" .
  show ?case
  proof (cases "processCharForStreamPacket cfg b s")
    case None
    hence "processCharForStreamPacket cfg b t = None" using e by simp
    thus ?thesis using None by simp
  next
    case (Some s1)
    then obtain t1 where t1: "processCharForStreamPacket cfg b t = Some t1"
      "detectorState t1 = detectorState s1" using e by auto
    show ?thesis using Some t1 Cons.IH[OF t1(2)] by simp
  qed
qed

lemma serialReady_loop:
  assumes W: "serialReady cfg s" and det: "isDevice s \<longrightarrow> detectorReady s"
  shows "\<exists>s'. bufferSerialFetch_loop cfg bs s = Some s' \<and> serialReady cfg s' \<and>
              isDevice s' = isDevice s \<and> isHost s' = isHost s \<and>
              (isDevice s' \<longrightarrow> detectorReady s') \<and>
              Some (detectorState s') =
                (if isDevice s
                 then map_option detectorState (processCharsForStreamPacket cfg bs s)
                 else Some (detectorState s)) \<and>
              (0 \<le> numberOfPacketsSent (bufferSerial s) \<and>
               numberOfPacketsSent (bufferSerial s) \<le> numberOfPacketsToSend (bufferSerial s)
               \<longrightarrow> 0 \<le> numberOfPacketsSent (bufferSerial s') \<and>
                   numberOfPacketsSent (bufferSerial s') \<le> numberOfPacketsToSend (bufferSerial s'))"
  using assms
proof (induction bs arbitrary: s)
  case Nil
  then show ?case by simp
next
  case (Cons b bs)
  from serialReady_body[OF Cons.prems, of b]
  obtain s1 where b1: "bufferSerialFetch_body cfg b s = Some s1" and W1: "serialReady cfg s1"
    and fr1: "isDevice s1 = isDevice s" "isHost s1 = isHost s"
    and det1: "isDevice s1 \<longrightarrow> detectorReady s1"
    and sb1: "Some (detectorState s1) =
                (if isDevice s
                 then map_option detectorState (processCharForStreamPacket cfg b s)
                 else Some (detectorState s))"
    and inv1: "0 \<le> numberOfPacketsSent (bufferSerial s) \<and>
               numberOfPacketsSent (bufferSerial s) \<le> numberOfPacketsToSend (bufferSerial s)
               \<longrightarrow> 0 \<le> numberOfPacketsSent (bufferSerial s1) \<and>
                   numberOfPacketsSent (bufferSerial s1) \<le> numberOfPacketsToSend (bufferSerial s1)"
    by blast
  from Cons.IH[OF W1 det1]
  obtain s' where l: "bufferSerialFetch_loop cfg bs s1 = Some s'" and W': "serialReady cfg s'"
    and fr': "isDevice s' = isDevice s1" "isHost s' = isHost s1"
    and det': "isDevice s' \<longrightarrow> detectorReady s'"
    and sb': "Some (detectorState s') =
                (if isDevice s1
                 then map_option detectorState (processCharsForStreamPacket cfg bs s1)
                 else Some (detectorState s1))"
    and inv': "0 \<le> numberOfPacketsSent (bufferSerial s1) \<and>
               numberOfPacketsSent (bufferSerial s1) \<le> numberOfPacketsToSend (bufferSerial s1)
               \<longrightarrow> 0 \<le> numberOfPacketsSent (bufferSerial s') \<and>
                   numberOfPacketsSent (bufferSerial s') \<le> numberOfPacketsToSend (bufferSerial s')"
    by blast
  have sb: "Some (detectorState s') =
                (if isDevice s
                 then map_option detectorState (processCharsForStreamPacket cfg (b # bs) s)
                 else Some (detectorState s))"
  proof (cases "isDevice s")
    case False
    thus ?thesis using sb1 sb' fr1 by simp
  next
    case True
    then obtain t where t: "processCharForStreamPacket cfg b s = Some t"
      "detectorState t = detectorState s1"
      using sb1 by (cases "processCharForStreamPacket cfg b s") auto
    have "map_option detectorState (processCharsForStreamPacket cfg bs s1)
        = map_option detectorState (processCharsForStreamPacket cfg bs t)"
      by (rule processChars_local) (simp add: t)
    thus ?thesis using True sb' fr1 t by simp
  qed
  show ?case using b1 l W' fr1 fr' det' sb inv1 inv' by simp
qed

lemma serialReady_fetch:
  assumes W: "serialReady cfg s" and det: "isDevice s \<longrightarrow> detectorReady s"
  shows "\<exists>s'. bufferSerialFetch cfg bs s = Some s' \<and> serialReady cfg s' \<and>
              isDevice s' = isDevice s \<and> isHost s' = isHost s \<and>
              (isDevice s' \<longrightarrow> detectorReady s') \<and>
              Some (detectorState s') =
                (if isDevice s
                 then map_option detectorState (processCharsForStreamPacket cfg bs s)
                 else Some (detectorState s)) \<and>
              (0 \<le> numberOfPacketsSent (bufferSerial s) \<and>
               numberOfPacketsSent (bufferSerial s) \<le> numberOfPacketsToSend (bufferSerial s)
               \<longrightarrow> 0 \<le> numberOfPacketsSent (bufferSerial s') \<and>
                   numberOfPacketsSent (bufferSerial s') \<le> numberOfPacketsToSend (bufferSerial s'))"
proof (cases "numberOfPacketsToSend (bufferSerial s) = 0")
  case False
  thus ?thesis using serialReady_loop[OF W det, of bs] by (simp add: bufferSerialFetch_def)
next
  case True
  let ?s0 = "s\<lparr>bufferSerial := (bufferSerial s)\<lparr>numberOfPacketsToSend := 1\<rparr>\<rparr>"
  have W0: "serialReady cfg ?s0"
    using W True by (auto simp: serialReady_def Let_def split: option.splits)
  have det0: "isDevice ?s0 \<longrightarrow> detectorReady ?s0" using det by (simp add: detectorReady_def)
  have loc: "map_option detectorState (processCharsForStreamPacket cfg bs ?s0)
           = map_option detectorState (processCharsForStreamPacket cfg bs s)"
    by (rule processChars_local) simp
  from serialReady_loop[OF W0 det0, of bs] loc
  show ?thesis using True by (auto simp: bufferSerialFetch_def)
qed


section \<open>The stream packet of the Device\<close>






text \<open>
  A clean buffer can take bytes, and by \<open>serialReady_fetch\<close> every pass of
  \<^verbatim>\<open>bufferSerialFetch\<close> leaves a buffer that can.
\<close>

lemma cleanSerial_serialReady:
  assumes "cleanSerial cfg s" and "0 < OPENBCI_MAX_NUMBER_OF_BUFFERS cfg"
  shows "serialReady cfg s"
  using assms
  by (auto simp: cleanSerial_def serialReady_def Let_def list_all_iff dest: in_set_dropD)




section \<open>The counters of the serial buffer\<close>

text \<open>
  A pass of \<^verbatim>\<open>bufferSerialFetch\<close> over any bytes returns and keeps
  \<^verbatim>\<open>0 <= numberOfPacketsSent <= numberOfPacketsToSend <= OPENBCI_MAX_NUMBER_OF_BUFFERS\<close>,
  from every state in which the buffer can take bytes.
\<close>

theorem bufferSerialFetch_invariant:
  assumes W: "serialReady cfg s" and det: "isDevice s \<longrightarrow> detectorReady s"
    and inv: "0 \<le> numberOfPacketsSent (bufferSerial s)"
      "numberOfPacketsSent (bufferSerial s) \<le> numberOfPacketsToSend (bufferSerial s)"
  shows "\<exists>s'. bufferSerialFetch cfg serial s = Some s' \<and>
              0 \<le> numberOfPacketsSent (bufferSerial s') \<and>
              numberOfPacketsSent (bufferSerial s') \<le> numberOfPacketsToSend (bufferSerial s') \<and>
              numberOfPacketsToSend (bufferSerial s') \<le> OPENBCI_MAX_NUMBER_OF_BUFFERS cfg"
proof -
  from serialReady_fetch[OF W det, of serial] inv
  obtain s' where f: "bufferSerialFetch cfg serial s = Some s'" and W': "serialReady cfg s'"
    and i: "0 \<le> numberOfPacketsSent (bufferSerial s')"
      "numberOfPacketsSent (bufferSerial s') \<le> numberOfPacketsToSend (bufferSerial s')"
    by blast
  have "numberOfPacketsToSend (bufferSerial s') \<le> OPENBCI_MAX_NUMBER_OF_BUFFERS cfg"
    using W' by (auto simp: serialReady_def Let_def split: option.splits)
  thus ?thesis using f i by blast
qed

theorem bufferSerialFetch_invariant_witness:
  "\<exists>s'. bufferSerialFetch exampleConfig (replicate 40 0x55) exampleStreamDevice = Some s' \<and>
        0 \<le> numberOfPacketsSent (bufferSerial s') \<and>
        numberOfPacketsSent (bufferSerial s') \<le> numberOfPacketsToSend (bufferSerial s') \<and>
        numberOfPacketsToSend (bufferSerial s') \<le> OPENBCI_MAX_NUMBER_OF_BUFFERS exampleConfig"
proof -
  have W: "serialReady exampleConfig exampleStreamDevice"
    by (simp add: serialReady_def exampleStreamDevice_def exampleDevice_def exampleHost_def exampleConfig_def
        cleanPacket_def Let_def list_all_iff)
  have det: "isDevice exampleStreamDevice \<longrightarrow> detectorReady exampleStreamDevice"
    by (simp add: detectorReady_def exampleStreamDevice_def exampleDevice_def exampleHost_def)
  have inv: "0 \<le> numberOfPacketsSent (bufferSerial exampleStreamDevice)"
      "numberOfPacketsSent (bufferSerial exampleStreamDevice)
       \<le> numberOfPacketsToSend (bufferSerial exampleStreamDevice)"
    by (simp_all add: exampleStreamDevice_def exampleDevice_def exampleHost_def)
  from bufferSerialFetch_invariant[OF W det inv] show ?thesis .
qed

text \<open>
  C1: the receive handler does not keep \<^verbatim>\<open>numberOfPacketsSent <= numberOfPacketsToSend\<close>.
  A Host reads the single byte \<^verbatim>\<open>OPENBCI_HOST_CHANNEL_QUERY\<close> from its serial port:
  one packet to send, none sent. After the serial time out a packet without a byte comes in.
  The handler writes the channel number to the serial port and calls
  \<^verbatim>\<open>bufferCleanSerial(1)\<close>, which sets both counters to 0; the
  \<^verbatim>\<open>numberOfPacketsSent++\<close> at the end of the handler then runs as on every other path.
  The handler returns with \<^verbatim>\<open>numberOfPacketsSent == 1\<close> and
  \<^verbatim>\<open>numberOfPacketsToSend == 0\<close>.
\<close>

theorem onReceive_channel_query_sent_exceeds:
  "(case bufferSerialFetch exampleConfig [0x00] exampleHost of
      None \<Rightarrow> False
    | Some s1 \<Rightarrow>
        numberOfPacketsToSend (bufferSerial s1) = 1 \<and>
        numberOfPacketsSent (bufferSerial s1) = 0 \<and>
        (case RFduinoGZLL_onReceive exampleConfig 0 0 [] 0 (s1\<lparr>millis := 2000\<rparr>) of
           None \<Rightarrow> False
         | Some s2 \<Rightarrow>
             numberOfPacketsSent (bufferSerial s2) = 1 \<and>
             numberOfPacketsToSend (bufferSerial s2) = 0 \<and>
             out s2 = [SerialWrite 25]))"
  by (simp add: fetch_eval handler_eval)

text \<open>
  What follows from the counters left that way: the next command the Host reads (here the
  byte \<open>0x62\<close>) makes both counters 1, so the next packet without a byte finds a buffer
  that looks sent, cleans it, and the command never reaches the Device.
\<close>

theorem onReceive_channel_query_next_command_lost:
  "(case bufferSerialFetch exampleConfig [0x00] exampleHost of
      None \<Rightarrow> False
    | Some s1 \<Rightarrow>
        (case RFduinoGZLL_onReceive exampleConfig 0 0 [] 0 (s1\<lparr>millis := 2000\<rparr>) of
           None \<Rightarrow> False
         | Some s2 \<Rightarrow>
             (case bufferSerialFetch exampleConfig [0x62] s2 of
                None \<Rightarrow> False
              | Some s3 \<Rightarrow>
                  numberOfPacketsSent (bufferSerial s3) = 1 \<and>
                  numberOfPacketsToSend (bufferSerial s3) = 1 \<and>
                  (case RFduinoGZLL_onReceive exampleConfig 0 0 [] 0 (s3\<lparr>millis := 3000\<rparr>) of
                     None \<Rightarrow> False
                   | Some s4 \<Rightarrow>
                       numberOfPacketsToSend (bufferSerial s4) = 0 \<and>
                       out s4 = [SerialWrite 25]))))"
  by (simp add: fetch_eval handler_eval)

text \<open>
  The code \<^verbatim>\<open>ORPM_PACKET_BAD_CHECK_SUM\<close> decrements \<^verbatim>\<open>numberOfPacketsSent\<close> without a
  test. With nothing sent the counter becomes \<open>-1\<close>, and the handler goes on to read the
  packet \<^verbatim>\<open>bufferSerial.packetBuffer + (-1)\<close>, which is outside the array.
\<close>

theorem onReceive_bad_check_sum_nothing_sent:
  "numberOfPacketsSent (bufferSerial exampleHost) = 0 \<and>
   RFduinoGZLL_onReceive exampleConfig 0 0 [0x01] 1 exampleHost = None"
  by (simp add: fetch_eval handler_eval)


section \<open>Overflow of the serial buffer\<close>

text \<open>
  C6: a pass over more bytes than the buffer holds does not end with
  \<^verbatim>\<open>numberOfPacketsToSend == 0\<close>. With four packet buffers a Device with a clean buffer
  reads 125 bytes in one pass. The 94th byte takes the overflow branch:
  \<^verbatim>\<open>currentPacketBufferSerial = NULL\<close>, then \<^verbatim>\<open>bufferCleanSerial\<close>, which points
  \<^verbatim>\<open>currentPacketBufferSerial\<close> at the first packet again, so the branch for a null
  pointer that would drop the rest is never taken. The bytes 94 to 124 fill the first
  packet, and the 125th byte opens the second: the pass ends with
  \<^verbatim>\<open>numberOfPacketsToSend == 1\<close> and the cursor at the second packet.
\<close>

theorem bufferSerialFetch_125_bytes:
  "31 * OPENBCI_MAX_NUMBER_OF_BUFFERS exampleConfig < (125::int) \<and>
   cleanSerial exampleConfig exampleDevice \<and>
   (case bufferSerialFetch exampleConfig (replicate 125 0x55) exampleDevice of
      None \<Rightarrow> False
    | Some s' \<Rightarrow> numberOfPacketsToSend (bufferSerial s') = 1 \<and>
                 currentPacketBufferSerial s' = Some 1 \<and>
                 map positionWrite (packetBuffer (bufferSerial s')) = [32, 2, 1, 1] \<and>
                 out s' = [SendToHost [0x04], SerialPrint ''v''])"
  by (simp add: fetch_eval cleanSerial_def)

text \<open>With 218 bytes in one pass the overflow branch is taken twice, and the signal sent twice.\<close>

theorem bufferSerialFetch_218_bytes:
  "(case bufferSerialFetch exampleConfig (replicate 218 0x55) exampleDevice of
      None \<Rightarrow> False
    | Some s' \<Rightarrow> numberOfPacketsToSend (bufferSerial s') = 0 \<and>
                 currentPacketBufferSerial s' = Some 0 \<and>
                 out s' = [SendToHost [0x04], SerialPrint ''v'',
                           SendToHost [0x04], SerialPrint ''v''])"
  by (simp add: fetch_eval)


section \<open>Flushing the stream packets of the Host\<close>

text \<open>Definitions that an evaluation of the stream packet buffer unfolds.\<close>

lemmas stream_eval =
  bufferAddStreamPacket_def bufferAddStreamPacket_body_def bufferAddStreamPacket_loop.simps
  writeTheHostsStreamPacketBufferToThePC_def writeTheHostsStreamPacketBufferToThePC_loop.simps
  streamPacketPointer_def writeStreamPacket_def writeStreamPacket_loop.simps
  outputGetStopByteFromByteId_def byteIdGetStreamPacketType_def
  bufferCleanStreamPackets_def bufferCleanCompleteBuffer_def bufferCleanCompletePacketBuffer_def
  bufferCleanCompletePacketBuffer_loop.simps cleanCompletePacket_def
  OPENBCI_MAX_DATA_BYTES_IN_PACKET_def

text \<open>
  With one stream packet in the buffer the flush writes the start byte, the 31 bytes of the
  packet, the stop byte of its header, and resets the buffer. The first three entries of
  \<open>out\<close> are what the handler printed when the packet came in.
\<close>

theorem writeTheHostsStreamPacketBufferToThePC_one_packet:
  "(case RFduinoGZLL_onReceive exampleConfig 0 0 (0x81 # replicate 31 0x01) 32 exampleHost of
      None \<Rightarrow> False
    | Some s1 \<Rightarrow>
        (case writeTheHostsStreamPacketBufferToThePC exampleConfig s1 of
           None \<Rightarrow> False
         | Some s2 \<Rightarrow>
             out s2 = [SerialPrint ''R<-'', SerialPrintlnNum 0, SerialPrintln ''S->N'']
                      @ SerialWrite 0xA0 # map SerialWrite (replicate 31 0x01)
                      @ [SerialWrite 0xC0] \<and>
             numberOfPacketsToSend (bufferStreamPackets s2) = 0))"
  by (simp add: fetch_eval handler_eval stream_eval)

text \<open>
  C10: the second stream packet is not written from its own bytes. A Host receives two
  stream packets, \<open>0x81\<close> with 31 bytes \<open>0x01\<close> and \<open>0x82\<close> with 31 bytes \<open>0x02\<close>; they
  are stored in the first and the second packet of \<^verbatim>\<open>bufferStreamPackets\<close>. For the
  second packet \<^verbatim>\<open>writeStreamPacket\<close> is given
  \<^verbatim>\<open>bufferStreamPackets.packetBuffer->data + 1\<close>: the bytes of the first packet from its
  index 1 on, 31 bytes \<open>0x01\<close>. \<^verbatim>\<open>writeStreamPacket\<close> reads the indices 0 to 31 of what
  it is given, so the last read is index 32 of the first packet's array of 32 bytes, and the
  flush has no defined result.
\<close>

theorem writeTheHostsStreamPacketBufferToThePC_two_packets:
  "(case RFduinoGZLL_onReceive exampleConfig 0 0 (0x81 # replicate 31 0x01) 32 exampleHost of
      None \<Rightarrow> False
    | Some s1 \<Rightarrow>
        (case RFduinoGZLL_onReceive exampleConfig 0 0 (0x82 # replicate 31 0x02) 32 s1 of
           None \<Rightarrow> False
         | Some s2 \<Rightarrow>
             numberOfPacketsToSend (bufferStreamPackets s2) = 2 \<and>
             numberOfPacketsSent (bufferStreamPackets s2) = 0 \<and>
             map data (take 2 (packetBuffer (bufferStreamPackets s2)))
               = [0x81 # replicate 31 0x01, 0x82 # replicate 31 0x02] \<and>
             streamPacketPointer
               (s2\<lparr>bufferStreamPackets := (bufferStreamPackets s2)\<lparr>numberOfPacketsSent := 1\<rparr>\<rparr>)
               = Some (replicate 31 0x01) \<and>
             writeTheHostsStreamPacketBufferToThePC exampleConfig s2 = None))"
  by (simp add: fetch_eval handler_eval stream_eval)

end
